theory Spec2Isabelle
  imports Complex_Main "HOL-Library.Word" "HOL-Library.Log_Nat" "HOL-Library.Multiset"
begin

section \<open>Go's numeric types\<close>

text \<open>
  Go's \<open>int64\<close> is a 64-bit word read as two's complement (\<open>sint\<close>); \<open>+=\<close> on it wraps.
  Go's \<open>int\<close> values (pixel dimensions, quality, compression level, counters) take part in
  no integer arithmetic that could overflow in the code modelled here, so they are \<open>int\<close>.
\<close>

type_synonym int64 = "64 word"

subsection \<open>float64: IEEE 754 binary64, round to nearest, ties to even\<close>

text \<open>
  A finite \<open>float64\<close> is the rational number it denotes; every arithmetic operation computes
  the exact rational result and rounds it to the binary64 grid (53 significant bits,
  smallest exponent \<open>-1074\<close>, overflow to infinity from \<open>2 ^ 1024\<close> on). The sign of a zero
  is not represented: the code modelled here never divides by a value that can be
  a negative zero and never prints or compares the sign of a zero. Every operation is
  rounded on its own, as the amd64 compiler does; Go allows an implementation to fuse
  \<open>x * y + z\<close> into one rounding, which on other architectures can change the last bit
  of the two ratios in \<open>EstimateSize\<close>.
\<close>

datatype float64 = Finite rat | PosInf | NegInf | NaN

definition ilog2 :: "rat \<Rightarrow> int" where
  \<comment> \<open>\<open>\<lfloor>log\<^sub>2 x\<rfloor>\<close> for \<open>x > 0\<close>\<close>
  "ilog2 x =
     (if 1 \<le> x then int (floorlog 2 (nat \<lfloor>x\<rfloor>)) - 1
      else - int (floorlog 2 (nat (\<lceil>1 / x\<rceil> - 1))))"

definition round_even :: "rat \<Rightarrow> int" where
  "round_even x =
     (let f = \<lfloor>x\<rfloor>; d = x - of_int f
      in if d < 1 / 2 then f
         else if 1 / 2 < d then f + 1
         else if even f then f else f + 1)"

definition ulp_exp :: "rat \<Rightarrow> int" where
  \<comment> \<open>exponent of the last place of the binary64 numbers around \<open>x \<noteq> 0\<close>\<close>
  "ulp_exp x = max (ilog2 \<bar>x\<bar> - 52) (- 1074)"

definition round_grid :: "rat \<Rightarrow> rat" where
  "round_grid x =
     (if x = 0 then 0
      else of_int (round_even (x / power_int 2 (ulp_exp x))) * power_int 2 (ulp_exp x))"

definition round64 :: "rat \<Rightarrow> float64" where
  "round64 x =
     (let v = round_grid x
      in if 2 ^ 1024 \<le> v then PosInf
         else if v \<le> - (2 ^ 1024) then NegInf
         else Finite v)"

definition f_of_int :: "int \<Rightarrow> float64" where
  \<comment> \<open>the conversion \<open>float64(n)\<close>\<close>
  "f_of_int n = round64 (of_int n)"

definition f_const :: "rat \<Rightarrow> float64" where
  \<comment> \<open>an untyped Go constant such as \<open>0.1\<close> used at type \<open>float64\<close>\<close>
  "f_const c = round64 c"

fun f_neg :: "float64 \<Rightarrow> float64" where
  "f_neg (Finite x) = Finite (- x)"
| "f_neg PosInf = NegInf"
| "f_neg NegInf = PosInf"
| "f_neg NaN = NaN"

fun f_add :: "float64 \<Rightarrow> float64 \<Rightarrow> float64" where
  "f_add (Finite x) (Finite y) = round64 (x + y)"
| "f_add NaN _ = NaN"
| "f_add _ NaN = NaN"
| "f_add PosInf NegInf = NaN"
| "f_add NegInf PosInf = NaN"
| "f_add PosInf _ = PosInf"
| "f_add NegInf _ = NegInf"
| "f_add _ PosInf = PosInf"
| "f_add _ NegInf = NegInf"

definition f_sub :: "float64 \<Rightarrow> float64 \<Rightarrow> float64" where
  "f_sub a b = f_add a (f_neg b)"

definition inf_of_sign :: "rat \<Rightarrow> float64" where
  "inf_of_sign s = (if s = 0 then NaN else if 0 < s then PosInf else NegInf)"

fun f_mul :: "float64 \<Rightarrow> float64 \<Rightarrow> float64" where
  "f_mul (Finite x) (Finite y) = round64 (x * y)"
| "f_mul NaN _ = NaN"
| "f_mul _ NaN = NaN"
| "f_mul (Finite x) PosInf = inf_of_sign x"
| "f_mul (Finite x) NegInf = inf_of_sign (- x)"
| "f_mul PosInf (Finite y) = inf_of_sign y"
| "f_mul NegInf (Finite y) = inf_of_sign (- y)"
| "f_mul PosInf PosInf = PosInf"
| "f_mul NegInf NegInf = PosInf"
| "f_mul PosInf NegInf = NegInf"
| "f_mul NegInf PosInf = NegInf"

fun f_div :: "float64 \<Rightarrow> float64 \<Rightarrow> float64" where
  "f_div (Finite x) (Finite y) = (if y = 0 then inf_of_sign x else round64 (x / y))"
| "f_div NaN _ = NaN"
| "f_div _ NaN = NaN"
| "f_div (Finite x) PosInf = Finite 0"
| "f_div (Finite x) NegInf = Finite 0"
| "f_div PosInf (Finite y) = (if 0 \<le> y then PosInf else NegInf)"
| "f_div NegInf (Finite y) = (if 0 \<le> y then NegInf else PosInf)"
| "f_div PosInf _ = NaN"
| "f_div NegInf _ = NaN"

fun f_less :: "float64 \<Rightarrow> float64 \<Rightarrow> bool" where
  "f_less (Finite x) (Finite y) = (x < y)"
| "f_less NaN _ = False"
| "f_less _ NaN = False"
| "f_less NegInf NegInf = False"
| "f_less NegInf _ = True"
| "f_less _ NegInf = False"
| "f_less PosInf _ = False"
| "f_less _ PosInf = True"

definition trunc_rat :: "rat \<Rightarrow> int" where
  \<comment> \<open>truncation towards zero\<close>
  "trunc_rat x = (if 0 \<le> x then \<lfloor>x\<rfloor> else \<lceil>x\<rceil>)"

fun f_to_int :: "(float64 \<Rightarrow> int) \<Rightarrow> float64 \<Rightarrow> int" where
  \<comment> \<open>the conversions \<open>int(f)\<close> and \<open>int64(f)\<close> of a 64-bit platform. Where the truncated
      value does not fit, Go leaves the result to the implementation: \<open>oor\<close> is what the
      platform gives.\<close>
  "f_to_int oor (Finite x) =
     (if - (2 ^ 63) \<le> trunc_rat x \<and> trunc_rat x < 2 ^ 63 then trunc_rat x else oor (Finite x))"
| "f_to_int oor f = oor f"

section \<open>The operating system and the image libraries\<close>

text \<open>
  The file system, the codecs and the resampler are outside the repository. They are the
  fields of a record, over an arbitrary type \<open>'w\<close> of file-system states and an arbitrary
  type \<open>'img\<close> of pixel grids; every theorem below holds for every such record. A Go
  \<open>error\<close> is its message, \<open>nil\<close> is \<open>None\<close>; an open file is named by its path.
\<close>

type_synonym error = string

datatype png_CompressionLevel = NoCompression | BestSpeed | DefaultCompression | BestCompression

record ('w, 'img) sys =
  os_Stat :: "string \<Rightarrow> 'w \<Rightarrow> error + int64"
  os_Open :: "string \<Rightarrow> 'w \<Rightarrow> error option"
  file_Stat :: "string \<Rightarrow> 'w \<Rightarrow> error + int64"
  image_DecodeConfig :: "string \<Rightarrow> 'w \<Rightarrow> error + (int \<times> int \<times> string)"
  imaging_Open :: "string \<Rightarrow> 'w \<Rightarrow> error + 'img"
  Bounds_Dx :: "'img \<Rightarrow> int"
  Bounds_Dy :: "'img \<Rightarrow> int"
  imaging_Resize :: "'img \<Rightarrow> int \<Rightarrow> int \<Rightarrow> 'img"
  os_MkdirAll :: "string \<Rightarrow> 'w \<Rightarrow> error option \<times> 'w"
  os_Create :: "string \<Rightarrow> 'w \<Rightarrow> error option \<times> 'w"
  jpeg_Encode :: "string \<Rightarrow> 'img \<Rightarrow> int \<Rightarrow> 'w \<Rightarrow> error option \<times> 'w"
  png_Encode :: "string \<Rightarrow> 'img \<Rightarrow> png_CompressionLevel \<Rightarrow> 'w \<Rightarrow> error option \<times> 'w"
  file_Close :: "string \<Rightarrow> 'w \<Rightarrow> 'w"
  filepath_Clean :: "string \<Rightarrow> string"
  float_to_int_oor :: "float64 \<Rightarrow> int"

subsection \<open>path/filepath and strings, on a system whose separator is the slash\<close>

definition isPathSeparator :: "char \<Rightarrow> bool" where
  "isPathSeparator c = (c = CHR ''/'')"

fun Ext_loop :: "string \<Rightarrow> string \<Rightarrow> string" where
  \<comment> \<open>the bytes before index \<open>i\<close> reversed, and the bytes after it\<close>
  "Ext_loop [] suf = []"
| "Ext_loop (c # front) suf =
     (if isPathSeparator c then []
      else if c = CHR ''.'' then c # suf
      else Ext_loop front (c # suf))"

definition Ext :: "string \<Rightarrow> string" where
  "Ext path = Ext_loop (rev path) []"

definition Base :: "string \<Rightarrow> string" where
  "Base path =
     (if path = [] then ''.''
      else let stripped = rev (dropWhile isPathSeparator (rev path));
               element = rev (takeWhile (\<lambda>c. \<not> isPathSeparator c) (rev stripped))
           in if element = [] then ''/'' else element)"

definition Dir :: "(string \<Rightarrow> string) \<Rightarrow> string \<Rightarrow> string" where
  "Dir clean path = clean (rev (dropWhile (\<lambda>c. \<not> isPathSeparator c) (rev path)))"

fun strings_Join :: "string list \<Rightarrow> string \<Rightarrow> string" where
  "strings_Join [] sep = []"
| "strings_Join [e] sep = e"
| "strings_Join (e # es) sep = e @ sep @ strings_Join es sep"

definition Join :: "(string \<Rightarrow> string) \<Rightarrow> string list \<Rightarrow> string" where
  "Join clean elem =
     (case dropWhile (\<lambda>e. e = []) elem of
        [] \<Rightarrow> []
      | es \<Rightarrow> clean (strings_Join es ''/''))"

definition TrimSuffix :: "string \<Rightarrow> string \<Rightarrow> string" where
  "TrimSuffix s suffix =
     (if length suffix \<le> length s \<and> drop (length s - length suffix) s = suffix
      then take (length s - length suffix) s else s)"

definition lower_byte :: "char \<Rightarrow> char" where
  "lower_byte c =
     (case map_of (zip ''ABCDEFGHIJKLMNOPQRSTUVWXYZ'' ''abcdefghijklmnopqrstuvwxyz'') c of
        Some l \<Rightarrow> l
      | None \<Rightarrow> c)"

definition ToLower :: "string \<Rightarrow> string" where
  \<comment> \<open>On ASCII bytes. \<open>GetImageFormat\<close> only compares the result with ASCII strings, and
      no letter outside ASCII has one of \<open>j p e g n\<close> as its lower case.\<close>
  "ToLower s = map lower_byte s"

section \<open>compressor.go\<close>

type_synonym ImageFormat = string

definition FormatJPEG :: ImageFormat where "FormatJPEG = ''jpeg''"
definition FormatPNG :: ImageFormat where "FormatPNG = ''png''"

record CompressionOptions =
  Quality :: int
  ResizePercent :: float64
  ResizeWidth :: int
  ResizeHeight :: int
  StripMetadata :: bool
  OutputDir :: string
  OutputSuffix :: string
  Progressive :: bool
  ChromaSubsample :: string
  CompressionLevel :: int
  Interlaced :: bool

record ImageInfo =
  info_Path :: string
  info_Format :: ImageFormat
  info_Width :: int
  info_Height :: int
  info_Size :: int64
  info_ColorMode :: string

record CompressionResult =
  InputPath :: string
  OutputPath :: string
  InputSize :: int64
  OutputSize :: int64
  Reduction :: float64
  Width :: int
  Height :: int
  Success :: bool
  Error :: "error option"

definition DefaultOptions :: CompressionOptions where
  "DefaultOptions =
     \<lparr>Quality = 85, ResizePercent = f_const 0, ResizeWidth = 0, ResizeHeight = 0,
      StripMetadata = True, OutputDir = [], OutputSuffix = ''_compressed'',
      Progressive = True, ChromaSubsample = ''4:2:0'', CompressionLevel = 6,
      Interlaced = False\<rparr>"

definition GetImageFormat :: "string \<Rightarrow> error + ImageFormat" where
  "GetImageFormat path =
     (let ext = ToLower (Ext path)
      in if ext = ''.jpg'' \<or> ext = ''.jpeg'' then Inr FormatJPEG
         else if ext = ''.png'' then Inr FormatPNG
         else Inl (''unsupported image format: '' @ ext))"

definition GetImageInfo :: "('w, 'img) sys \<Rightarrow> string \<Rightarrow> 'w \<Rightarrow> error + ImageInfo" where
  "GetImageInfo sys path w =
     (case os_Open sys path w of
        Some err \<Rightarrow> Inl (''failed to open file: '' @ err)
      | None \<Rightarrow>
     (case file_Stat sys path w of
        Inl err \<Rightarrow> Inl (''failed to get file stats: '' @ err)
      | Inr fsize \<Rightarrow>
     (case image_DecodeConfig sys path w of
        Inl err \<Rightarrow> Inl (''failed to decode image config: '' @ err)
      | Inr (cw, ch, format) \<Rightarrow>
     (let info = (\<lambda>imgFormat. \<lparr>info_Path = path, info_Format = imgFormat, info_Width = cw,
                                info_Height = ch, info_Size = fsize, info_ColorMode = format\<rparr>)
      in case GetImageFormat path of
           Inr imgFormat \<Rightarrow> Inr (info imgFormat)
         | Inl _ \<Rightarrow>
             if format = ''jpeg'' then Inr (info FormatJPEG)
             else if format = ''png'' then Inr (info FormatPNG)
             else Inl (''unsupported format: '' @ format)))))"

definition GenerateOutputPath :: "(string \<Rightarrow> string) \<Rightarrow> string \<Rightarrow> 'a CompressionOptions_scheme \<Rightarrow> string" where
  "GenerateOutputPath clean inputPath options =
     (let dir = (if OutputDir options \<noteq> [] then OutputDir options else Dir clean inputPath);
          ext = Ext inputPath;
          base = TrimSuffix (Base inputPath) ext
      in Join clean [dir, base @ OutputSuffix options @ ext])"

definition CalculateReduction :: "int64 \<Rightarrow> int64 \<Rightarrow> float64" where
  "CalculateReduction original compressed =
     (if original = 0 then Finite 0
      else f_mul (f_sub (f_const 1) (f_div (f_of_int (sint compressed)) (f_of_int (sint original))))
                 (f_const 100))"

section \<open>jpeg.go\<close>

definition percentActive :: "'a CompressionOptions_scheme \<Rightarrow> bool" where
  \<comment> \<open>the test \<open>options.ResizePercent > 0 && options.ResizePercent < 100\<close>\<close>
  "percentActive options =
     (f_less (f_const 0) (ResizePercent options) \<and> f_less (ResizePercent options) (f_const 100))"

definition applyResize :: "('w, 'img) sys \<Rightarrow> 'img \<Rightarrow> 'a CompressionOptions_scheme \<Rightarrow> 'img" where
  "applyResize sys img options =
     (let width = Bounds_Dx sys img;
          height = Bounds_Dy sys img;
          toInt = f_to_int (float_to_int_oor sys)
      in if percentActive options then
           let newWidth = toInt (f_div (f_mul (f_of_int width) (ResizePercent options)) (f_const 100));
               newHeight = toInt (f_div (f_mul (f_of_int height) (ResizePercent options)) (f_const 100))
           in imaging_Resize sys img newWidth newHeight
         else if 0 < ResizeWidth options \<or> 0 < ResizeHeight options then
           let newWidth = ResizeWidth options;
               newHeight = ResizeHeight options
           in if newWidth = 0 then
                let ratio = f_div (f_of_int newHeight) (f_of_int height)
                in imaging_Resize sys img (toInt (f_mul (f_of_int width) ratio)) newHeight
              else if newHeight = 0 then
                let ratio = f_div (f_of_int newWidth) (f_of_int width)
                in imaging_Resize sys img newWidth (toInt (f_mul (f_of_int height) ratio))
              else imaging_Resize sys img newWidth newHeight
         else img)"

definition newResult :: "string \<Rightarrow> CompressionResult" where
  \<comment> \<open>\<open>&CompressionResult{InputPath: inputPath, Success: false}\<close>: the other fields are zero\<close>
  "newResult inputPath =
     \<lparr>InputPath = inputPath, OutputPath = [], InputSize = 0, OutputSize = 0, Reduction = Finite 0,
      Width = 0, Height = 0, Success = False, Error = None\<rparr>"

definition failWith :: "CompressionResult \<Rightarrow> error \<Rightarrow> CompressionResult \<times> error option" where
  \<comment> \<open>\<open>result.Error = fmt.Errorf(...); return result, result.Error\<close>\<close>
  "failWith result msg = (result\<lparr>Error := Some msg\<rparr>, Some msg)"

definition JPEG_Compress ::
  "('w, 'img) sys \<Rightarrow> string \<Rightarrow> 'a CompressionOptions_scheme \<Rightarrow> 'w
     \<Rightarrow> (CompressionResult \<times> error option) \<times> 'w" where
  "JPEG_Compress sys inputPath options w =
     (let result = newResult inputPath
      in case os_Stat sys inputPath w of
           Inl err \<Rightarrow> (failWith result (''failed to get input file info: '' @ err), w)
         | Inr inputSize \<Rightarrow>
      let result = result\<lparr>InputSize := inputSize\<rparr>
      in case imaging_Open sys inputPath w of
           Inl err \<Rightarrow> (failWith result (''failed to open image: '' @ err), w)
         | Inr decoded \<Rightarrow>
      let img = applyResize sys decoded options;
          result = result\<lparr>Width := Bounds_Dx sys img, Height := Bounds_Dy sys img\<rparr>;
          outputPath = GenerateOutputPath (filepath_Clean sys) inputPath options;
          result = result\<lparr>OutputPath := outputPath\<rparr>
      in case (if OutputDir options \<noteq> [] then os_MkdirAll sys (OutputDir options) w else (None, w)) of
           (Some err, w1) \<Rightarrow> (failWith result (''failed to create output directory: '' @ err), w1)
         | (None, w1) \<Rightarrow>
      (case os_Create sys outputPath w1 of
           (Some err, w2) \<Rightarrow> (failWith result (''failed to create output file: '' @ err), w2)
         | (None, w2) \<Rightarrow>
      (case jpeg_Encode sys outputPath img (Quality options) w2 of
           (Some err, w3) \<Rightarrow>
             (failWith result (''failed to encode JPEG: '' @ err), file_Close sys outputPath w3)
         | (None, w3) \<Rightarrow>
      (case os_Stat sys outputPath w3 of
           Inl err \<Rightarrow>
             (failWith result (''failed to get output file info: '' @ err), file_Close sys outputPath w3)
         | Inr outputSize \<Rightarrow>
      let result = result\<lparr>OutputSize := outputSize\<rparr>;
          result = result\<lparr>Reduction := CalculateReduction (InputSize result) (OutputSize result)\<rparr>;
          result = result\<lparr>Success := True\<rparr>
      in ((result, None), file_Close sys outputPath w3)))))"

definition resizeFactor :: "'a CompressionOptions_scheme \<Rightarrow> float64" where
  \<comment> \<open>the same four lines of both \<open>EstimateSize\<close> methods\<close>
  "resizeFactor options =
     (if percentActive options
      then f_mul (f_div (ResizePercent options) (f_const 100)) (f_div (ResizePercent options) (f_const 100))
      else f_const 1)"

definition JPEG_EstimateSize ::
  "('w, 'img) sys \<Rightarrow> string \<Rightarrow> 'a CompressionOptions_scheme \<Rightarrow> 'w \<Rightarrow> error + int64" where
  "JPEG_EstimateSize sys inputPath options w =
     (case GetImageInfo sys inputPath w of
        Inl err \<Rightarrow> Inl err
      | Inr info \<Rightarrow>
          let qualityFactor = f_div (f_of_int (Quality options)) (f_const 100);
              baseRatio = f_add (f_const (1 / 10)) (f_mul qualityFactor (f_const (4 / 10)));
              estimatedSize = f_mul (f_mul (f_of_int (sint (info_Size info))) baseRatio) (resizeFactor options)
          in Inr (of_int (f_to_int (float_to_int_oor sys) estimatedSize)))"

section \<open>png.go\<close>

definition pngLevel :: "int \<Rightarrow> png_CompressionLevel" where
  "pngLevel level =
     (if level \<le> 0 then NoCompression
      else if level \<le> 3 then BestSpeed
      else if level \<le> 6 then DefaultCompression
      else BestCompression)"

definition PNG_Compress ::
  "('w, 'img) sys \<Rightarrow> string \<Rightarrow> 'a CompressionOptions_scheme \<Rightarrow> 'w
     \<Rightarrow> (CompressionResult \<times> error option) \<times> 'w" where
  "PNG_Compress sys inputPath options w =
     (let result = newResult inputPath
      in case os_Stat sys inputPath w of
           Inl err \<Rightarrow> (failWith result (''failed to get input file info: '' @ err), w)
         | Inr inputSize \<Rightarrow>
      let result = result\<lparr>InputSize := inputSize\<rparr>
      in case imaging_Open sys inputPath w of
           Inl err \<Rightarrow> (failWith result (''failed to open image: '' @ err), w)
         | Inr decoded \<Rightarrow>
      let img = applyResize sys decoded options;
          result = result\<lparr>Width := Bounds_Dx sys img, Height := Bounds_Dy sys img\<rparr>;
          outputPath = GenerateOutputPath (filepath_Clean sys) inputPath options;
          result = result\<lparr>OutputPath := outputPath\<rparr>
      in case (if OutputDir options \<noteq> [] then os_MkdirAll sys (OutputDir options) w else (None, w)) of
           (Some err, w1) \<Rightarrow> (failWith result (''failed to create output directory: '' @ err), w1)
         | (None, w1) \<Rightarrow>
      (case os_Create sys outputPath w1 of
           (Some err, w2) \<Rightarrow> (failWith result (''failed to create output file: '' @ err), w2)
         | (None, w2) \<Rightarrow>
      (case png_Encode sys outputPath img (pngLevel (CompressionLevel options)) w2 of
           (Some err, w3) \<Rightarrow>
             (failWith result (''failed to encode PNG: '' @ err), file_Close sys outputPath w3)
         | (None, w3) \<Rightarrow>
      (case os_Stat sys outputPath w3 of
           Inl err \<Rightarrow>
             (failWith result (''failed to get output file info: '' @ err), file_Close sys outputPath w3)
         | Inr outputSize \<Rightarrow>
      let result = result\<lparr>OutputSize := outputSize\<rparr>;
          result = result\<lparr>Reduction := CalculateReduction (InputSize result) (OutputSize result)\<rparr>;
          result = result\<lparr>Success := True\<rparr>
      in ((result, None), file_Close sys outputPath w3)))))"

definition PNG_EstimateSize ::
  "('w, 'img) sys \<Rightarrow> string \<Rightarrow> 'a CompressionOptions_scheme \<Rightarrow> 'w \<Rightarrow> error + int64" where
  "PNG_EstimateSize sys inputPath options w =
     (case GetImageInfo sys inputPath w of
        Inl err \<Rightarrow> Inl err
      | Inr info \<Rightarrow>
          let compressionFactor =
                f_sub (f_const 1) (f_mul (f_of_int (CompressionLevel options)) (f_const (5 / 100)));
              estimatedSize =
                f_mul (f_mul (f_of_int (sint (info_Size info))) compressionFactor) (resizeFactor options)
          in Inr (of_int (f_to_int (float_to_int_oor sys) estimatedSize)))"

section \<open>api.go\<close>

definition CompressImage ::
  "('w, 'img) sys \<Rightarrow> string \<Rightarrow> 'a CompressionOptions_scheme \<Rightarrow> 'w
     \<Rightarrow> (CompressionResult option \<times> error option) \<times> 'w" where
  \<comment> \<open>the first component is the returned pointer: \<open>None\<close> is \<open>nil\<close>\<close>
  "CompressImage sys inputPath options w =
     (case GetImageFormat inputPath of
        Inl err \<Rightarrow> ((None, Some err), w)
      | Inr format \<Rightarrow>
          if format = FormatJPEG then
            (case JPEG_Compress sys inputPath options w of ((r, e), w') \<Rightarrow> ((Some r, e), w'))
          else if format = FormatPNG then
            (case PNG_Compress sys inputPath options w of ((r, e), w') \<Rightarrow> ((Some r, e), w'))
          else ((None, Some (''unsupported format: '' @ format)), w))"

definition EstimateSize ::
  "('w, 'img) sys \<Rightarrow> string \<Rightarrow> 'a CompressionOptions_scheme \<Rightarrow> 'w \<Rightarrow> error + int64" where
  "EstimateSize sys inputPath options w =
     (case GetImageFormat inputPath of
        Inl err \<Rightarrow> Inl err
      | Inr format \<Rightarrow>
          if format = FormatJPEG then JPEG_EstimateSize sys inputPath options w
          else if format = FormatPNG then PNG_EstimateSize sys inputPath options w
          else Inl (''unsupported format: '' @ format))"

record BatchResult =
  Results :: "CompressionResult option list"
  TotalInput :: int64
  TotalOutput :: int64
  TotalReduction :: float64
  SuccessCount :: int
  FailCount :: int

datatype fault = NilPointerDereference

definition newBatchResult :: BatchResult where
  "newBatchResult =
     \<lparr>Results = [], TotalInput = 0, TotalOutput = 0, TotalReduction = Finite 0,
      SuccessCount = 0, FailCount = 0\<rparr>"

definition collect :: "BatchResult \<Rightarrow> CompressionResult option \<Rightarrow> fault + BatchResult" where
  \<comment> \<open>the critical section between \<open>mu.Lock()\<close> and \<open>mu.Unlock()\<close>. The pointer is appended
      first; reading \<open>result.Success\<close> through a nil pointer panics, and a panic in a
      goroutine ends the program.\<close>
  "collect batchResult result =
     (let batchResult = batchResult\<lparr>Results := Results batchResult @ [result]\<rparr>
      in case result of
           None \<Rightarrow> Inl NilPointerDereference
         | Some r \<Rightarrow>
             if Success r then
               Inr (batchResult\<lparr>SuccessCount := SuccessCount batchResult + 1,
                                TotalInput := TotalInput batchResult + InputSize r,
                                TotalOutput := TotalOutput batchResult + OutputSize r\<rparr>)
             else Inr (batchResult\<lparr>FailCount := FailCount batchResult + 1\<rparr>))"

type_synonym progress = "CompressionResult option list option"

definition send :: "progress \<Rightarrow> CompressionResult option \<Rightarrow> progress" where
  \<comment> \<open>\<open>if progressChan != nil { progressChan <- result }\<close>; the channel is the list of
      what has been sent on it\<close>
  "send progressChan result = map_option (\<lambda>sent. sent @ [result]) progressChan"

fun workers ::
  "('w, 'img) sys \<Rightarrow> 'a CompressionOptions_scheme \<Rightarrow> string list
     \<Rightarrow> BatchResult \<times> progress \<times> 'w \<Rightarrow> (fault + BatchResult) \<times> progress \<times> 'w" where
  \<comment> \<open>the goroutines, in the order in which they run: one goroutine compresses its file,
      enters the critical section and sends, before the next one does\<close>
  "workers sys options [] (batchResult, progressChan, w) = (Inr batchResult, progressChan, w)"
| "workers sys options (inputPath # rest) (batchResult, progressChan, w) =
     (case CompressImage sys inputPath options w of
        ((result, _), w') \<Rightarrow>
          (case collect batchResult result of
             Inl f \<Rightarrow> (Inl f, progressChan, w')
           | Inr batchResult' \<Rightarrow>
               workers sys options rest (batchResult', send progressChan result, w')))"

definition finish :: "BatchResult \<Rightarrow> BatchResult" where
  \<comment> \<open>after \<open>wg.Wait()\<close>\<close>
  "finish batchResult =
     (if 0 < sint (TotalInput batchResult)
      then batchResult\<lparr>TotalReduction :=
             CalculateReduction (TotalInput batchResult) (TotalOutput batchResult)\<rparr>
      else batchResult)"

definition BatchCompress ::
  "('w, 'img) sys \<Rightarrow> string list \<Rightarrow> 'a CompressionOptions_scheme \<Rightarrow> progress \<Rightarrow> 'w
     \<Rightarrow> (fault + BatchResult) \<times> progress \<times> 'w" where
  \<comment> \<open>\<open>order\<close> lists the input paths in the order in which their goroutines run\<close>
  "BatchCompress sys order options progressChan w =
     (case workers sys options order (newBatchResult, progressChan, w) of
        (Inl f, progressChan', w') \<Rightarrow> (Inl f, progressChan', w')
      | (Inr batchResult, progressChan', w') \<Rightarrow> (Inr (finish batchResult), progressChan', w'))"

subsection \<open>The goroutines of \<open>BatchCompress\<close>\<close>

text \<open>
  The interleaving of the goroutines, for the claim about the semaphore. Each input path
  has one goroutine, at one of the points below; \<open>semaphore\<close> is the number of values in
  the buffer of \<open>make(chan struct{}, 4)\<close>. An event is one goroutine taking one step, and
  it can fire only where Go lets the goroutine go on: a send on a full channel and a lock
  of a held mutex wait. Every order of events that can fire is a run.
\<close>

datatype pc =
    NotStarted \<comment> \<open>the loop has not reached the path\<close>
  | Waiting \<comment> \<open>at \<open>semaphore <- struct{}{}\<close>\<close>
  | Compressing \<comment> \<open>inside \<open>api.CompressImage\<close>\<close>
  | Compressed bool \<comment> \<open>at \<open>mu.Lock()\<close>; the flag says that the result is not nil\<close>
  | Critical bool \<comment> \<open>between \<open>mu.Lock()\<close> and \<open>mu.Unlock()\<close>\<close>
  | Sending \<comment> \<open>at \<open>if progressChan != nil { progressChan <- result }\<close>\<close>
  | Releasing \<comment> \<open>at the deferred \<open><-semaphore\<close>\<close>
  | Panicking \<comment> \<open>\<open>result.Success\<close> has panicked; the deferred calls are still to run\<close>
  | Finished

record sched =
  pcs :: "pc list"
  semaphore :: nat
  mu :: bool
  crashed :: bool

definition semaphore_cap :: nat where
  "semaphore_cap = 4"

datatype event =
    Spawn nat | Acquire nat | Return nat bool | Lock nat | Unlock nat | Panic nat
  | Send nat | Release nat

definition worker_at :: "sched \<Rightarrow> nat \<Rightarrow> pc \<Rightarrow> bool" where
  "worker_at s i p = (\<not> crashed s \<and> i < length (pcs s) \<and> pcs s ! i = p)"

definition move :: "sched \<Rightarrow> nat \<Rightarrow> pc \<Rightarrow> sched" where
  "move s i p = s\<lparr>pcs := (pcs s)[i := p]\<rparr>"

fun fire :: "event \<Rightarrow> sched \<Rightarrow> sched option" where
  \<comment> \<open>\<open>wg.Add(1); go func(...)\<close>, in the order of the loop\<close>
  "fire (Spawn i) s =
     (if worker_at s i NotStarted \<and> NotStarted \<notin> set (take i (pcs s))
      then Some (move s i Waiting) else None)"
  \<comment> \<open>\<open>semaphore <- struct{}{}\<close>: waits while the buffer is full\<close>
| "fire (Acquire i) s =
     (if worker_at s i Waiting \<and> semaphore s < semaphore_cap
      then Some ((move s i Compressing)\<lparr>semaphore := semaphore s + 1\<rparr>) else None)"
  \<comment> \<open>\<open>api.CompressImage\<close> returns\<close>
| "fire (Return i ok) s =
     (if worker_at s i Compressing then Some (move s i (Compressed ok)) else None)"
  \<comment> \<open>\<open>mu.Lock()\<close>: waits while the mutex is held\<close>
| "fire (Lock i) s =
     (if worker_at s i (Compressed True) \<and> \<not> mu s
      then Some ((move s i (Critical True))\<lparr>mu := True\<rparr>)
      else if worker_at s i (Compressed False) \<and> \<not> mu s
      then Some ((move s i (Critical False))\<lparr>mu := True\<rparr>)
      else None)"
  \<comment> \<open>the update of the batch result and \<open>mu.Unlock()\<close>\<close>
| "fire (Unlock i) s =
     (if worker_at s i (Critical True) then Some ((move s i Sending)\<lparr>mu := False\<rparr>) else None)"
  \<comment> \<open>\<open>result.Success\<close> on a nil result: the mutex stays held\<close>
| "fire (Panic i) s =
     (if worker_at s i (Critical False) then Some (move s i Panicking) else None)"
  \<comment> \<open>the send on the progress channel, or nothing when it is nil\<close>
| "fire (Send i) s =
     (if worker_at s i Sending then Some (move s i Releasing) else None)"
  \<comment> \<open>the deferred \<open><-semaphore\<close> and \<open>wg.Done()\<close>; after a panic they run too, and the
      program then ends\<close>
| "fire (Release i) s =
     (if worker_at s i Releasing \<and> 0 < semaphore s
      then Some ((move s i Finished)\<lparr>semaphore := semaphore s - 1\<rparr>)
      else if worker_at s i Panicking \<and> 0 < semaphore s
      then Some ((move s i Finished)\<lparr>semaphore := semaphore s - 1, crashed := True\<rparr>)
      else None)"

fun run_events :: "event list \<Rightarrow> sched \<Rightarrow> sched option" where
  "run_events [] s = Some s"
| "run_events (e # es) s = (case fire e s of None \<Rightarrow> None | Some s' \<Rightarrow> run_events es s')"

definition batch_start :: "nat \<Rightarrow> sched" where
  \<comment> \<open>on entry, for \<open>n\<close> input paths\<close>
  "batch_start n = \<lparr>pcs = replicate n NotStarted, semaphore = 0, mu = False, crashed = False\<rparr>"

fun holds_slot :: "pc \<Rightarrow> bool" where
  \<comment> \<open>between the send on the semaphore and the receive from it\<close>
  "holds_slot Compressing = True"
| "holds_slot (Compressed ok) = True"
| "holds_slot (Critical ok) = True"
| "holds_slot Sending = True"
| "holds_slot Releasing = True"
| "holds_slot Panicking = True"
| "holds_slot _ = False"

definition in_flight :: "sched \<Rightarrow> nat" where
  \<comment> \<open>the number of goroutines inside \<open>api.CompressImage\<close>\<close>
  "in_flight s = length (filter (\<lambda>p. p = Compressing) (pcs s))"

definition holders :: "sched \<Rightarrow> nat" where
  "holders s = length (filter holds_slot (pcs s))"

subsection \<open>Reading a finished batch\<close>

definition present :: "BatchResult \<Rightarrow> CompressionResult list" where
  "present b = List.map_filter id (Results b)"

definition successful :: "BatchResult \<Rightarrow> CompressionResult list" where
  "successful b = filter Success (present b)"

definition failed :: "BatchResult \<Rightarrow> CompressionResult list" where
  "failed b = filter (\<lambda>r. \<not> Success r) (present b)"

definition aggregated :: "BatchResult \<Rightarrow> bool" where
  "aggregated b =
     (None \<notin> set (Results b)
      \<and> TotalInput b = sum_list (map InputSize (successful b))
      \<and> TotalOutput b = sum_list (map OutputSize (successful b))
      \<and> SuccessCount b = int (length (successful b))
      \<and> FailCount b = int (length (failed b)))"

section \<open>The closed form of the size estimate\<close>




section \<open>A small system to run the code on\<close>

text \<open>
  A file system that knows the size of each file, in which an empty file does not decode
  and every other file decodes to an 800 by 600 grid; the JPEG encoder writes 1200 bytes
  and the PNG encoder 500. A pixel grid remembers the calls of the resampler that
  produced it.
\<close>

datatype demo_image = Decoded int int | Resized demo_image int int

fun demo_Dx :: "demo_image \<Rightarrow> int" where
  "demo_Dx (Decoded w h) = w"
| "demo_Dx (Resized img w h) = w"

fun demo_Dy :: "demo_image \<Rightarrow> int" where
  "demo_Dy (Decoded w h) = h"
| "demo_Dy (Resized img w h) = h"

type_synonym demo_files = "(string \<times> int64) list"

definition demo_stat :: "string \<Rightarrow> demo_files \<Rightarrow> error + int64" where
  "demo_stat path files =
     (case map_of files path of
        None \<Rightarrow> Inl ''no such file or directory''
      | Some n \<Rightarrow> Inr n)"

definition demo_sys :: "(demo_files, demo_image) sys" where
  "demo_sys =
     \<lparr>os_Stat = demo_stat,
      os_Open = (\<lambda>path files. case demo_stat path files of Inl err \<Rightarrow> Some err | Inr _ \<Rightarrow> None),
      file_Stat = demo_stat,
      image_DecodeConfig = (\<lambda>path files.
         case demo_stat path files of
           Inl err \<Rightarrow> Inl err
         | Inr n \<Rightarrow> if n = 0 then Inl ''unexpected EOF'' else Inr (800, 600, ''jpeg'')),
      imaging_Open = (\<lambda>path files.
         case demo_stat path files of
           Inl err \<Rightarrow> Inl err
         | Inr n \<Rightarrow> if n = 0 then Inl ''image: unknown format'' else Inr (Decoded 800 600)),
      Bounds_Dx = demo_Dx,
      Bounds_Dy = demo_Dy,
      imaging_Resize = Resized,
      os_MkdirAll = (\<lambda>dir files. (None, files)),
      os_Create = (\<lambda>path files. (None, (path, 0) # files)),
      jpeg_Encode = (\<lambda>path img quality files. (None, (path, 1200) # files)),
      png_Encode = (\<lambda>path img level files. (None, (path, 500) # files)),
      file_Close = (\<lambda>path files. files),
      filepath_Clean = (\<lambda>path. path),
      float_to_int_oor = (\<lambda>f. - (2 ^ 63))\<rparr>"

definition demo_paths :: "string list" where
  "demo_paths = [''a.jpg'', ''bad.jpg'', ''c.png'']"

definition demo_input_files :: demo_files where
  "demo_input_files = [(''a.jpg'', 1000), (''bad.jpg'', 0), (''c.png'', 2000)]"

definition demo_output_files :: demo_files where
  "demo_output_files =
     [(''c_compressed.png'', 500), (''c_compressed.png'', 0),
      (''a_compressed.jpg'', 1200), (''a_compressed.jpg'', 0)] @ demo_input_files"

definition demo_jpeg_result :: CompressionResult where
  "demo_jpeg_result =
     \<lparr>InputPath = ''a.jpg'', OutputPath = ''a_compressed.jpg'', InputSize = 1000,
      OutputSize = 1200, Reduction = CalculateReduction 1000 1200, Width = 800,
      Height = 600, Success = True, Error = None\<rparr>"

definition demo_bad_result :: CompressionResult where
  "demo_bad_result =
     \<lparr>InputPath = ''bad.jpg'', OutputPath = [], InputSize = 0, OutputSize = 0,
      Reduction = Finite 0, Width = 0, Height = 0, Success = False,
      Error = Some ''failed to open image: image: unknown format''\<rparr>"

definition demo_png_result :: CompressionResult where
  "demo_png_result =
     \<lparr>InputPath = ''c.png'', OutputPath = ''c_compressed.png'', InputSize = 2000,
      OutputSize = 500, Reduction = CalculateReduction 2000 500, Width = 800,
      Height = 600, Success = True, Error = None\<rparr>"

definition demo_batch_result :: BatchResult where
  "demo_batch_result =
     \<lparr>Results = [Some demo_jpeg_result, Some demo_bad_result, Some demo_png_result],
      TotalInput = 3000, TotalOutput = 1700,
      TotalReduction = CalculateReduction 3000 1700, SuccessCount = 2, FailCount = 1\<rparr>"

section \<open>Rounding to binary64\<close>

text \<open>
  \<open>ilog2\<close> is the binade of a positive rational; \<open>round_even\<close> picks the nearest integer
  and the even one at a tie. A rounding is certified from the binade and the chosen
  significand, numbers with at most 53 significant bits are not changed by rounding, and
  rounding a number of the normal range stays within its binade.
\<close>

lemma ilog2_bounds:
  assumes "0 < x"
  shows "power_int 2 (ilog2 x) \<le> x \<and> x < power_int 2 (ilog2 x + 1)"
proof (cases "1 \<le> x")
  case True
  define n where "n = nat \<lfloor>x\<rfloor>"
  have n: "0 < n" using True by (simp add: n_def)
  define c where "c = floorlog 2 n"
  have b: "2 ^ (c - 1) \<le> n" "n < 2 ^ c"
    using floorlog_bounds [of n 2] n by (simp_all add: c_def)
  have c: "0 < c" using n floorlog_eq_zero_iff [of 2 n] by (simp add: c_def)
  have il: "ilog2 x = int c - 1" using True by (simp add: ilog2_def n_def c_def)
  have nx: "of_nat n \<le> x" "x < of_nat n + 1"
    using True by (simp_all add: n_def) linarith+
  have "power_int 2 (int c - 1) = (2::rat) ^ (c - 1)"
    using c by (simp add: power_int_def nat_diff_distrib')
  moreover have "(2::rat) ^ (c - 1) \<le> of_nat n"
    using b(1) by (metis of_nat_le_iff of_nat_numeral of_nat_power)
  moreover have "of_nat n + 1 \<le> (2::rat) ^ c"
  proof -
    have "n + 1 \<le> 2 ^ c" using b(2) by simp
    then have "(of_nat (n + 1) :: rat) \<le> of_nat (2 ^ c)" by (simp only: of_nat_le_iff)
    then show ?thesis by simp
  qed
  moreover have "power_int 2 (int c - 1 + 1) = (2::rat) ^ c" by simp
  ultimately show ?thesis unfolding il using nx by linarith
next
  case False
  define y where "y = 1 / x"
  have y: "1 < y" using False assms by (simp add: y_def)
  define m where "m = nat (\<lceil>y\<rceil> - 1)"
  have cy: "2 \<le> \<lceil>y\<rceil>" using y by linarith
  have m: "0 < m" "int m = \<lceil>y\<rceil> - 1" using cy by (simp_all add: m_def)
  define c where "c = floorlog 2 m"
  have b: "2 ^ (c - 1) \<le> m" "m < 2 ^ c"
    using floorlog_bounds [of m 2] m by (simp_all add: c_def)
  have c: "0 < c" using m(1) floorlog_eq_zero_iff [of 2 m] by (simp add: c_def)
  have il: "ilog2 x = - int c" using False by (simp add: ilog2_def m_def c_def y_def)
  have my: "of_nat m < y" "y \<le> of_nat m + 1"
  proof -
    have "of_int (\<lceil>y\<rceil> - 1) < y" by linarith
    then show "of_nat m < y" using m(2) by (metis of_int_of_nat_eq)
    have "y \<le> of_int \<lceil>y\<rceil>" by linarith
    also have "\<dots> = of_int (int m + 1)" using m(2) by simp
    finally show "y \<le> of_nat m + 1" by simp
  qed
  have "(2::rat) ^ (c - 1) \<le> of_nat m"
    using b(1) by (metis of_nat_le_iff of_nat_numeral of_nat_power)
  then have lo: "(2::rat) ^ (c - 1) < y" using my(1) by (rule le_less_trans)
  have "of_nat m + 1 \<le> (2::rat) ^ c"
  proof -
    have "m + 1 \<le> 2 ^ c" using b(2) by simp
    then have "(of_nat (m + 1) :: rat) \<le> of_nat (2 ^ c)" by (simp only: of_nat_le_iff)
    then show ?thesis by simp
  qed
  with my(2) have hi: "y \<le> (2::rat) ^ c" by (rule order_trans)
  have x: "x = 1 / y" using assms by (simp add: y_def)
  have p1: "power_int 2 (- int c) = 1 / (2::rat) ^ c"
    by (simp add: power_int_minus field_simps)
  have p2: "power_int 2 (- int c + 1) = 1 / (2::rat) ^ (c - 1)"
  proof -
    have "- int c + 1 = - int (c - 1)" using c by simp
    then show ?thesis by (simp only: power_int_minus power_int_of_nat) (simp add: field_simps)
  qed
  have "1 / (2::rat) ^ c \<le> 1 / y" using hi y by (simp add: frac_le)
  moreover have "1 / y < 1 / (2::rat) ^ (c - 1)" using lo by (simp add: frac_less2)
  ultimately show ?thesis unfolding il p1 p2 x [symmetric] by linarith
qed

lemma ilog2_unique:
  assumes "0 < x" "power_int 2 k \<le> x" "x < power_int 2 (k + 1)"
  shows "ilog2 x = k"
proof -
  from ilog2_bounds [OF assms(1)]
  have b: "power_int 2 (ilog2 x) \<le> x" "x < power_int 2 (ilog2 x + 1)" by simp_all
  have "k < ilog2 x + 1"
  proof (rule ccontr)
    assume "\<not> k < ilog2 x + 1"
    then have "power_int (2::rat) (ilog2 x + 1) \<le> power_int 2 k"
      by (intro power_int_increasing) simp_all
    then show False using assms(2) b(2) by simp
  qed
  moreover have "ilog2 x < k + 1"
  proof (rule ccontr)
    assume "\<not> ilog2 x < k + 1"
    then have "power_int (2::rat) (k + 1) \<le> power_int 2 (ilog2 x)"
      by (intro power_int_increasing) simp_all
    then show False using assms(3) b(1) by simp
  qed
  ultimately show ?thesis by simp
qed


lemma round_even_near:
  assumes "\<bar>x - of_int m\<bar> < 1 / 2"
  shows "round_even x = m"
proof (cases "of_int m \<le> x")
  case True
  then have "\<lfloor>x\<rfloor> = m" using assms by (intro floor_unique) simp_all
  then show ?thesis using assms True by (simp add: round_even_def)
next
  case False
  then have "\<lfloor>x\<rfloor> = m - 1" using assms by (intro floor_unique) simp_all
  then show ?thesis using assms False by (simp add: round_even_def)
qed


lemma round_even_of_int [simp]: "round_even (of_int m) = m"
  by (rule round_even_near) simp

lemma round_even_ge: "of_int n \<le> x \<Longrightarrow> n \<le> round_even x"
proof -
  assume "of_int n \<le> x"
  then have "n \<le> \<lfloor>x\<rfloor>" by (simp add: le_floor_iff)
  then show ?thesis by (simp add: round_even_def Let_def)
qed



lemma ulp_exp_minus [simp]: "ulp_exp (- x) = ulp_exp x"
  by (simp add: ulp_exp_def)


lemma ulp_exp_eq:
  assumes "power_int 2 k \<le> \<bar>x\<bar>" "\<bar>x\<bar> < power_int 2 (k + 1)"
  shows "ulp_exp x = max (k - 52) (- 1074)"
proof -
  have "0 < \<bar>x\<bar>" using assms(1) by (rule less_le_trans [rotated]) simp
  then have "ilog2 \<bar>x\<bar> = k" using assms by (rule ilog2_unique)
  then show ?thesis by (simp add: ulp_exp_def)
qed

lemma round_grid_eq:
  assumes "power_int 2 k \<le> \<bar>x\<bar>" "\<bar>x\<bar> < power_int 2 (k + 1)"
    and "e = max (k - 52) (- 1074)"
    and "round_even (x / power_int 2 e) = m"
  shows "round_grid x = of_int m * power_int 2 e"
proof -
  have "0 < \<bar>x\<bar>" using assms(1) by (rule less_le_trans [rotated]) simp
  then have "x \<noteq> 0" by simp
  moreover have "ulp_exp x = e" using ulp_exp_eq [OF assms(1,2)] assms(3) by simp
  ultimately show ?thesis using assms(4) by (simp add: round_grid_def)
qed

lemma round64_Finite:
  assumes "\<bar>round_grid x\<bar> < 2 ^ 1024"
  shows "round64 x = Finite (round_grid x)"
  using assms by (simp add: round64_def Let_def abs_less_iff)


lemma round64_cert:
  assumes "power_int 2 k \<le> \<bar>x\<bar>" "\<bar>x\<bar> < power_int 2 (k + 1)"
    and "e = max (k - 52) (- 1074)"
    and "\<bar>x / power_int 2 e - of_int m\<bar> < 1 / 2"
    and "v = of_int m * power_int 2 e"
    and "\<bar>v\<bar> < 2 ^ 1024"
  shows "round64 x = Finite v"
proof -
  have "round_even (x / power_int 2 e) = m" using assms(4) by (rule round_even_near)
  with assms(1-3) have "round_grid x = v" unfolding assms(5) by (rule round_grid_eq)
  with assms(6) show ?thesis by (simp add: round64_Finite)
qed




lemma round64_exact:
  assumes "\<bar>m\<bar> < 2 ^ 53" "- 1074 \<le> e" "e \<le> 970"
  shows "round64 (of_int m * power_int 2 e) = Finite (of_int m * power_int 2 e)"
proof (cases "m = 0")
  case True
  then show ?thesis by (simp add: round64_def round_grid_def)
next
  case False
  define x :: rat where "x = of_int m * power_int 2 e"
  have pe: "0 < power_int (2::rat) e" by simp
  have ax: "\<bar>x\<bar> = of_int \<bar>m\<bar> * power_int 2 e" by (simp add: x_def abs_mult)
  have "0 < \<bar>m\<bar>" using False by simp
  then have "(0::rat) < of_int \<bar>m\<bar>" by (simp only: of_int_0_less_iff)
  then have pos: "0 < \<bar>x\<bar>" unfolding ax using pe by (rule mult_pos_pos)
  define k where "k = ilog2 \<bar>x\<bar>"
  from ilog2_bounds [OF pos]
  have b: "power_int 2 k \<le> \<bar>x\<bar>" "\<bar>x\<bar> < power_int 2 (k + 1)" by (simp_all add: k_def)
  have "(of_int \<bar>m\<bar> :: rat) < of_int (2 ^ 53)" using assms(1) by (simp only: of_int_less_iff)
  then have "\<bar>x\<bar> < 2 ^ 53 * power_int 2 e" unfolding ax using pe by (simp add: mult_strict_right_mono)
  also have "\<dots> = power_int 2 (e + 53)" by (simp add: power_int_add)
  finally have "power_int (2::rat) k < power_int 2 (e + 53)" using b(1) by simp
  have "k < e + 53"
  proof (rule ccontr)
    assume "\<not> k < e + 53"
    then have "power_int (2::rat) (e + 53) \<le> power_int 2 k"
      by (intro power_int_increasing) simp_all
    then show False using \<open>power_int (2::rat) k < power_int 2 (e + 53)\<close> by simp
  qed
  define u where "u = max (k - 52) (- 1074)"
  have u: "u \<le> e" using \<open>k < e + 53\<close> assms(2) by (simp add: u_def)
  have "power_int (2::rat) e = power_int 2 (e - u) * power_int 2 u"
    by (simp flip: power_int_add)
  also have "power_int (2::rat) (e - u) = of_int (2 ^ nat (e - u))"
    using u by (simp add: power_int_def)
  finally have pu: "power_int (2::rat) e = of_int (2 ^ nat (e - u)) * power_int 2 u" .
  have "x / power_int 2 u = of_int (m * 2 ^ nat (e - u))"
    unfolding x_def pu by simp
  then have "round_even (x / power_int 2 u) = m * 2 ^ nat (e - u)"
    by (simp only: round_even_of_int)
  with b have "round_grid x = of_int (m * 2 ^ nat (e - u)) * power_int 2 u"
    by (intro round_grid_eq [where k = k]) (simp_all add: u_def)
  also have "\<dots> = x" unfolding x_def pu by simp
  finally have rg: "round_grid x = x" .
  have "\<bar>x\<bar> < power_int 2 (e + 53)"
    using \<open>\<bar>x\<bar> < 2 ^ 53 * power_int 2 e\<close> by (simp add: power_int_add)
  also have "\<dots> \<le> power_int 2 1024" using assms(3) by (intro power_int_increasing) simp_all
  finally have "\<bar>x\<bar> < 2 ^ 1024" by simp
  then show ?thesis unfolding x_def [symmetric] using rg by (simp add: round64_Finite)
qed

lemma round64_of_int:
  assumes "\<bar>n\<bar> < 2 ^ 53"
  shows "round64 (of_int n) = Finite (of_int n)"
  using round64_exact [OF assms, of 0] by simp

section \<open>The per-file pipeline\<close>

lemma JPEG_Compress_Error_Success:
  "(Error (fst (fst (JPEG_Compress sys p opts w))) = None) = Success (fst (fst (JPEG_Compress sys p opts w)))"
  by (simp add: JPEG_Compress_def failWith_def newResult_def Let_def
           split: sum.split prod.split option.split)

lemma PNG_Compress_Error_Success:
  "(Error (fst (fst (PNG_Compress sys p opts w))) = None) = Success (fst (fst (PNG_Compress sys p opts w)))"
  by (simp add: PNG_Compress_def failWith_def newResult_def Let_def
           split: sum.split prod.split option.split)

lemma JPEG_Compress_returned_error:
  "snd (fst (JPEG_Compress sys p opts w)) = Error (fst (fst (JPEG_Compress sys p opts w)))"
  by (simp add: JPEG_Compress_def failWith_def newResult_def Let_def
           split: sum.split prod.split option.split)

lemma PNG_Compress_returned_error:
  "snd (fst (PNG_Compress sys p opts w)) = Error (fst (fst (PNG_Compress sys p opts w)))"
  by (simp add: PNG_Compress_def failWith_def newResult_def Let_def
           split: sum.split prod.split option.split)

lemma JPEG_Compress_steps:
  "(\<forall>err.
         os_Stat sys inputPath w = Inl err \<longrightarrow>
         \<not> Success (fst (fst (JPEG_Compress sys inputPath options w)))
         \<and> Error (fst (fst (JPEG_Compress sys inputPath options w)))
             = Some (''failed to get input file info: '' @ err))
   \<and> (\<forall>n err.
         os_Stat sys inputPath w = Inr n
         \<and> imaging_Open sys inputPath w = Inl err \<longrightarrow>
         \<not> Success (fst (fst (JPEG_Compress sys inputPath options w)))
         \<and> Error (fst (fst (JPEG_Compress sys inputPath options w)))
             = Some (''failed to open image: '' @ err))
   \<and> (\<forall>n decoded err w1.
         os_Stat sys inputPath w = Inr n
         \<and> imaging_Open sys inputPath w = Inr decoded
         \<and> OutputDir options \<noteq> []
         \<and> os_MkdirAll sys (OutputDir options) w = (Some err, w1) \<longrightarrow>
         \<not> Success (fst (fst (JPEG_Compress sys inputPath options w)))
         \<and> Error (fst (fst (JPEG_Compress sys inputPath options w)))
             = Some (''failed to create output directory: '' @ err))
   \<and> (\<forall>n decoded w1 err w2.
         os_Stat sys inputPath w = Inr n
         \<and> imaging_Open sys inputPath w = Inr decoded
         \<and> (if OutputDir options \<noteq> [] then os_MkdirAll sys (OutputDir options) w
           else (None, w)) = (None, w1)
         \<and> os_Create sys (GenerateOutputPath (filepath_Clean sys) inputPath options) w1 = (Some err, w2) \<longrightarrow>
         \<not> Success (fst (fst (JPEG_Compress sys inputPath options w)))
         \<and> Error (fst (fst (JPEG_Compress sys inputPath options w)))
             = Some (''failed to create output file: '' @ err))
   \<and> (\<forall>n decoded w1 w2 err w3.
         os_Stat sys inputPath w = Inr n
         \<and> imaging_Open sys inputPath w = Inr decoded
         \<and> (if OutputDir options \<noteq> [] then os_MkdirAll sys (OutputDir options) w
           else (None, w)) = (None, w1)
         \<and> os_Create sys (GenerateOutputPath (filepath_Clean sys) inputPath options) w1 = (None, w2)
         \<and> jpeg_Encode sys (GenerateOutputPath (filepath_Clean sys) inputPath options)
               (applyResize sys decoded options) (Quality options) w2
             = (Some err, w3) \<longrightarrow>
         \<not> Success (fst (fst (JPEG_Compress sys inputPath options w)))
         \<and> Error (fst (fst (JPEG_Compress sys inputPath options w)))
             = Some (''failed to encode JPEG: '' @ err))
   \<and> (\<forall>n decoded w1 w2 w3 err.
         os_Stat sys inputPath w = Inr n
         \<and> imaging_Open sys inputPath w = Inr decoded
         \<and> (if OutputDir options \<noteq> [] then os_MkdirAll sys (OutputDir options) w
           else (None, w)) = (None, w1)
         \<and> os_Create sys (GenerateOutputPath (filepath_Clean sys) inputPath options) w1 = (None, w2)
         \<and> jpeg_Encode sys (GenerateOutputPath (filepath_Clean sys) inputPath options)
               (applyResize sys decoded options) (Quality options) w2
             = (None, w3)
         \<and> os_Stat sys (GenerateOutputPath (filepath_Clean sys) inputPath options) w3 = Inl err \<longrightarrow>
         \<not> Success (fst (fst (JPEG_Compress sys inputPath options w)))
         \<and> Error (fst (fst (JPEG_Compress sys inputPath options w)))
             = Some (''failed to get output file info: '' @ err))
   \<and> (\<forall>n decoded w1 w2 w3 m.
         os_Stat sys inputPath w = Inr n
         \<and> imaging_Open sys inputPath w = Inr decoded
         \<and> (if OutputDir options \<noteq> [] then os_MkdirAll sys (OutputDir options) w
           else (None, w)) = (None, w1)
         \<and> os_Create sys (GenerateOutputPath (filepath_Clean sys) inputPath options) w1 = (None, w2)
         \<and> jpeg_Encode sys (GenerateOutputPath (filepath_Clean sys) inputPath options)
               (applyResize sys decoded options) (Quality options) w2
             = (None, w3)
         \<and> os_Stat sys (GenerateOutputPath (filepath_Clean sys) inputPath options) w3 = Inr m \<longrightarrow>
         Success (fst (fst (JPEG_Compress sys inputPath options w)))
         \<and> Error (fst (fst (JPEG_Compress sys inputPath options w))) = None
         \<and> InputSize (fst (fst (JPEG_Compress sys inputPath options w))) = n
         \<and> OutputSize (fst (fst (JPEG_Compress sys inputPath options w))) = m)"
  by (simp add: JPEG_Compress_def failWith_def newResult_def Let_def)

lemma PNG_Compress_steps:
  "(\<forall>err.
         os_Stat sys inputPath w = Inl err \<longrightarrow>
         \<not> Success (fst (fst (PNG_Compress sys inputPath options w)))
         \<and> Error (fst (fst (PNG_Compress sys inputPath options w)))
             = Some (''failed to get input file info: '' @ err))
   \<and> (\<forall>n err.
         os_Stat sys inputPath w = Inr n
         \<and> imaging_Open sys inputPath w = Inl err \<longrightarrow>
         \<not> Success (fst (fst (PNG_Compress sys inputPath options w)))
         \<and> Error (fst (fst (PNG_Compress sys inputPath options w)))
             = Some (''failed to open image: '' @ err))
   \<and> (\<forall>n decoded err w1.
         os_Stat sys inputPath w = Inr n
         \<and> imaging_Open sys inputPath w = Inr decoded
         \<and> OutputDir options \<noteq> []
         \<and> os_MkdirAll sys (OutputDir options) w = (Some err, w1) \<longrightarrow>
         \<not> Success (fst (fst (PNG_Compress sys inputPath options w)))
         \<and> Error (fst (fst (PNG_Compress sys inputPath options w)))
             = Some (''failed to create output directory: '' @ err))
   \<and> (\<forall>n decoded w1 err w2.
         os_Stat sys inputPath w = Inr n
         \<and> imaging_Open sys inputPath w = Inr decoded
         \<and> (if OutputDir options \<noteq> [] then os_MkdirAll sys (OutputDir options) w
           else (None, w)) = (None, w1)
         \<and> os_Create sys (GenerateOutputPath (filepath_Clean sys) inputPath options) w1 = (Some err, w2) \<longrightarrow>
         \<not> Success (fst (fst (PNG_Compress sys inputPath options w)))
         \<and> Error (fst (fst (PNG_Compress sys inputPath options w)))
             = Some (''failed to create output file: '' @ err))
   \<and> (\<forall>n decoded w1 w2 err w3.
         os_Stat sys inputPath w = Inr n
         \<and> imaging_Open sys inputPath w = Inr decoded
         \<and> (if OutputDir options \<noteq> [] then os_MkdirAll sys (OutputDir options) w
           else (None, w)) = (None, w1)
         \<and> os_Create sys (GenerateOutputPath (filepath_Clean sys) inputPath options) w1 = (None, w2)
         \<and> png_Encode sys (GenerateOutputPath (filepath_Clean sys) inputPath options)
               (applyResize sys decoded options) (pngLevel (CompressionLevel options)) w2
             = (Some err, w3) \<longrightarrow>
         \<not> Success (fst (fst (PNG_Compress sys inputPath options w)))
         \<and> Error (fst (fst (PNG_Compress sys inputPath options w)))
             = Some (''failed to encode PNG: '' @ err))
   \<and> (\<forall>n decoded w1 w2 w3 err.
         os_Stat sys inputPath w = Inr n
         \<and> imaging_Open sys inputPath w = Inr decoded
         \<and> (if OutputDir options \<noteq> [] then os_MkdirAll sys (OutputDir options) w
           else (None, w)) = (None, w1)
         \<and> os_Create sys (GenerateOutputPath (filepath_Clean sys) inputPath options) w1 = (None, w2)
         \<and> png_Encode sys (GenerateOutputPath (filepath_Clean sys) inputPath options)
               (applyResize sys decoded options) (pngLevel (CompressionLevel options)) w2
             = (None, w3)
         \<and> os_Stat sys (GenerateOutputPath (filepath_Clean sys) inputPath options) w3 = Inl err \<longrightarrow>
         \<not> Success (fst (fst (PNG_Compress sys inputPath options w)))
         \<and> Error (fst (fst (PNG_Compress sys inputPath options w)))
             = Some (''failed to get output file info: '' @ err))
   \<and> (\<forall>n decoded w1 w2 w3 m.
         os_Stat sys inputPath w = Inr n
         \<and> imaging_Open sys inputPath w = Inr decoded
         \<and> (if OutputDir options \<noteq> [] then os_MkdirAll sys (OutputDir options) w
           else (None, w)) = (None, w1)
         \<and> os_Create sys (GenerateOutputPath (filepath_Clean sys) inputPath options) w1 = (None, w2)
         \<and> png_Encode sys (GenerateOutputPath (filepath_Clean sys) inputPath options)
               (applyResize sys decoded options) (pngLevel (CompressionLevel options)) w2
             = (None, w3)
         \<and> os_Stat sys (GenerateOutputPath (filepath_Clean sys) inputPath options) w3 = Inr m \<longrightarrow>
         Success (fst (fst (PNG_Compress sys inputPath options w)))
         \<and> Error (fst (fst (PNG_Compress sys inputPath options w))) = None
         \<and> InputSize (fst (fst (PNG_Compress sys inputPath options w))) = n
         \<and> OutputSize (fst (fst (PNG_Compress sys inputPath options w))) = m)"
  by (simp add: PNG_Compress_def failWith_def newResult_def Let_def)

section \<open>Evaluating on concrete numbers\<close>

lemma round64_0 [simp]: "round64 0 = Finite 0"
  by (simp add: round64_def round_grid_def)

lemma round64_1 [simp]: "round64 1 = Finite 1"
  using round64_of_int [of 1] by simp

lemma round64_numeral:
  "\<bar>numeral n :: int\<bar> < 2 ^ 53 \<Longrightarrow> round64 (numeral n) = Finite (numeral n)"
  using round64_of_int [of "numeral n"] by simp

lemmas float_eval = f_const_def f_of_int_def round64_numeral

lemmas path_eval = GenerateOutputPath_def Dir_def Ext_def Base_def Join_def TrimSuffix_def
  isPathSeparator_def GetImageFormat_def ToLower_def lower_byte_def Let_def
  FormatJPEG_def FormatPNG_def

lemmas demo_eval = demo_sys_def demo_stat_def DefaultOptions_def newResult_def failWith_def
  applyResize_def percentActive_def pngLevel_def

section \<open>The batch\<close>

lemma aggregated_new: "aggregated newBatchResult"
  by (simp add: aggregated_def newBatchResult_def successful_def failed_def present_def)

lemma collect_aggregated:
  assumes "aggregated b" "collect b x = Inr b'"
  shows "aggregated b'" "Results b' = Results b @ [x]" "TotalReduction b' = TotalReduction b"
  using assms
  by (auto simp: collect_def aggregated_def successful_def failed_def present_def
        List.map_filter_def Let_def split: option.splits if_splits)

lemma workers_aggregated:
  assumes "workers sys options order (b, pc, w) = (Inr b', pc', w')" "aggregated b"
  shows "aggregated b' \<and> length (Results b') = length (Results b) + length order
         \<and> TotalReduction b' = TotalReduction b"
  using assms
proof (induction order arbitrary: b pc w)
  case Nil
  then show ?case by simp
next
  case (Cons p ps)
  obtain x e w1 where c: "CompressImage sys p options w = ((x, e), w1)"
    by (metis surj_pair)
  from Cons.prems(1) c obtain b1 where
    b1: "collect b x = Inr b1" and
    rest: "workers sys options ps (b1, send pc x, w1) = (Inr b', pc', w')"
    by (auto split: sum.splits)
  from collect_aggregated [OF Cons.prems(2) b1]
  have "aggregated b1" "Results b1 = Results b @ [x]" "TotalReduction b1 = TotalReduction b" .
  with Cons.IH [OF rest] show ?case by simp
qed

lemma BatchCompress_Inr:
  assumes "BatchCompress sys order options pc w = (Inr b, pc', w')"
  obtains b0 where "workers sys options order (newBatchResult, pc, w) = (Inr b0, pc', w')"
    and "b = finish b0"
  using assms by (auto simp: BatchCompress_def split: prod.splits sum.splits)

lemma finish_fields [simp]:
  "Results (finish b) = Results b" "TotalInput (finish b) = TotalInput b"
  "TotalOutput (finish b) = TotalOutput b" "SuccessCount (finish b) = SuccessCount b"
  "FailCount (finish b) = FailCount b"
  by (simp_all add: finish_def)

lemma aggregated_finish: "aggregated (finish b) = aggregated b"
  by (simp add: aggregated_def successful_def failed_def present_def)

lemma length_successful_failed:
  "length (successful b) + length (failed b) = length (present b)"
  unfolding successful_def failed_def by (rule sum_length_filter_compl)

lemma present_all: "None \<notin> set rs \<Longrightarrow> length (List.map_filter id rs) = length rs"
proof (induction rs)
  case Nil
  then show ?case by (simp add: List.map_filter_def)
next
  case (Cons a rs)
  then obtain r where "a = Some r" by (cases a) auto
  with Cons show ?case by (simp add: List.map_filter_def)
qed

lemma CompressImage_unsupported:
  "GetImageFormat p = Inl e \<Longrightarrow> CompressImage sys p options w = ((None, Some e), w)"
  by (simp add: CompressImage_def)

lemma workers_unsupported:
  assumes "p \<in> set order" "GetImageFormat p = Inl e"
  shows "fst (workers sys options order (b, pc, w)) = Inl NilPointerDereference"
  using assms(1)
proof (induction order arbitrary: b pc w)
  case Nil
  then show ?case by simp
next
  case (Cons q qs)
  obtain x e' w1 where c: "CompressImage sys q options w = ((x, e'), w1)"
    by (metis surj_pair)
  show ?case
  proof (cases "collect b x")
    case (Inl f)
    then show ?thesis using c by (cases f) simp
  next
    case (Inr b1)
    then have "x \<noteq> None" by (auto simp: collect_def Let_def split: option.splits)
    then have "q \<noteq> p" using c CompressImage_unsupported [OF assms(2), of sys options w] by auto
    then have "p \<in> set qs" using Cons.prems by simp
    from Cons.IH [OF this] show ?thesis using c Inr by simp
  qed
qed

lemma BatchCompress_unsupported:
  assumes "p \<in> set order" "GetImageFormat p = Inl e"
  shows "fst (BatchCompress sys order options pc w) = Inl NilPointerDereference"
proof -
  from workers_unsupported [OF assms, of sys options newBatchResult pc w]
  show ?thesis by (auto simp: BatchCompress_def split: prod.splits sum.splits)
qed

lemma JPEG_Compress_InputPath: "InputPath (fst (fst (JPEG_Compress sys p opts w))) = p"
  by (simp add: JPEG_Compress_def failWith_def newResult_def Let_def
           split: sum.split prod.split option.split)

lemma PNG_Compress_InputPath: "InputPath (fst (fst (PNG_Compress sys p opts w))) = p"
  by (simp add: PNG_Compress_def failWith_def newResult_def Let_def
           split: sum.split prod.split option.split)

lemma GetImageFormat_Inr:
  "GetImageFormat p = Inr f \<Longrightarrow> f = FormatJPEG \<or> f = FormatPNG"
  by (auto simp: GetImageFormat_def Let_def split: if_splits)

lemma CompressImage_supported:
  assumes "GetImageFormat p = Inr f"
  shows "\<exists>r e w'. CompressImage sys p options w = ((Some r, e), w') \<and> InputPath r = p"
proof -
  from GetImageFormat_Inr [OF assms] show ?thesis
  proof
    assume f: "f = FormatJPEG"
    obtain r e w' where c: "JPEG_Compress sys p options w = ((r, e), w')" by (metis surj_pair)
    with JPEG_Compress_InputPath [of sys p options w] have "InputPath r = p" by simp
    with c show ?thesis by (simp add: CompressImage_def assms f)
  next
    assume f: "f = FormatPNG"
    obtain r e w' where c: "PNG_Compress sys p options w = ((r, e), w')" by (metis surj_pair)
    with PNG_Compress_InputPath [of sys p options w] have "InputPath r = p" by simp
    with c show ?thesis by (simp add: CompressImage_def assms f FormatJPEG_def FormatPNG_def)
  qed
qed

lemma collect_Some:
  "\<exists>b'. collect b (Some r) = Inr b' \<and> Results b' = Results b @ [Some r]"
  by (simp add: collect_def Let_def)

lemma present_snoc: "Results b1 = Results b @ [Some r] \<Longrightarrow> present b1 = present b @ [r]"
  by (simp add: present_def List.map_filter_def)

lemma workers_supported:
  assumes "\<forall>p \<in> set order. \<exists>f. GetImageFormat p = Inr f"
  shows "\<exists>b' pc' w'. workers sys options order (b, pc, w) = (Inr b', pc', w')
           \<and> map InputPath (present b') = map InputPath (present b) @ order"
  using assms
proof (induction order arbitrary: b pc w)
  case Nil
  then show ?case by simp
next
  case (Cons p ps)
  then obtain f where "GetImageFormat p = Inr f" by auto
  from CompressImage_supported [OF this, of sys options w] obtain r e w1 where
    c: "CompressImage sys p options w = ((Some r, e), w1)" and ip: "InputPath r = p" by blast
  from collect_Some [of b r] obtain b1 where
    b1: "collect b (Some r) = Inr b1" "Results b1 = Results b @ [Some r]" by blast
  from Cons.prems have "\<forall>p \<in> set ps. \<exists>f. GetImageFormat p = Inr f" by simp
  from Cons.IH [OF this, of b1 "send pc (Some r)" w1] obtain b' pc' w' where
    "workers sys options ps (b1, send pc (Some r), w1) = (Inr b', pc', w')"
    "map InputPath (present b') = map InputPath (present b1) @ ps" by blast
  then show ?case using c b1(1) present_snoc [OF b1(2)] ip by simp
qed

lemma BatchCompress_supported:
  assumes "\<forall>p \<in> set order. \<exists>f. GetImageFormat p = Inr f"
  shows "\<exists>b pc' w'. BatchCompress sys order options pc w = (Inr b, pc', w')
           \<and> map InputPath (present b) = order"
proof -
  from workers_supported [OF assms, of sys options newBatchResult pc w]
  obtain b' pc' w' where
    "workers sys options order (newBatchResult, pc, w) = (Inr b', pc', w')"
    "map InputPath (present b') = map InputPath (present newBatchResult) @ order"
    by blast
  then show ?thesis
    by (simp add: BatchCompress_def present_def newBatchResult_def List.map_filter_def)
qed

lemma CompressImage_InputPath:
  assumes "CompressImage sys p options w = ((Some r, e), w')"
  shows "InputPath r = p"
proof (cases "GetImageFormat p")
  case (Inl err)
  with assms show ?thesis by (simp add: CompressImage_def)
next
  case (Inr f)
  from CompressImage_supported [OF this, of sys options w] assms show ?thesis by auto
qed

lemma workers_InputPath:
  assumes "workers sys options order (b, pc, w) = (Inr b', pc', w')"
  shows "map InputPath (present b') = map InputPath (present b) @ order"
  using assms
proof (induction order arbitrary: b pc w)
  case Nil
  then show ?case by simp
next
  case (Cons p ps)
  obtain x e w1 where c: "CompressImage sys p options w = ((x, e), w1)"
    by (metis surj_pair)
  from Cons.prems c obtain b1 where
    b1: "collect b x = Inr b1" and
    rest: "workers sys options ps (b1, send pc x, w1) = (Inr b', pc', w')"
    by (auto split: sum.splits)
  from b1 obtain r where x: "x = Some r" and rs: "Results b1 = Results b @ [Some r]"
    by (auto simp: collect_def Let_def split: option.splits if_splits)
  from c x have "InputPath r = p" by (auto dest: CompressImage_InputPath)
  with Cons.IH [OF rest] present_snoc [OF rs] show ?case by simp
qed

lemma sint_sum_list:
  fixes ws :: "int64 list"
  assumes "\<forall>x \<in> set ws. 0 \<le> sint x" "sum_list (map sint ws) < 2 ^ 63"
  shows "sint (sum_list ws) = sum_list (map sint ws)"
  using assms
proof (induction ws)
  case Nil
  then show ?case by simp
next
  case (Cons a ws)
  have nn: "0 \<le> sum_list (map sint ws)" using Cons.prems(1) by (intro sum_list_nonneg) auto
  have a: "0 \<le> sint a" using Cons.prems(1) by simp
  have "sum_list (map sint ws) < 2 ^ 63" using Cons.prems(2) a by simp
  with Cons have ih: "sint (sum_list ws) = sum_list (map sint ws)" by simp
  have "sint (a + sum_list ws) = signed_take_bit 63 (sint a + sint (sum_list ws))"
    by (simp add: sint_word_add)
  also have "\<dots> = sint a + sint (sum_list ws)"
    using Cons.prems(2) a nn unfolding ih
    by (intro signed_take_bit_int_eq_self) simp_all
  finally show ?case using ih by simp
qed

lemma demo_batch:
  "BatchCompress demo_sys demo_paths DefaultOptions None demo_input_files
   = (Inr demo_batch_result, None, demo_output_files)"
  by (simp add: BatchCompress_def CompressImage_def collect_def newBatchResult_def send_def
        finish_def PNG_Compress_def JPEG_Compress_def demo_eval path_eval float_eval
        demo_paths_def demo_input_files_def demo_output_files_def demo_batch_result_def
        demo_jpeg_result_def demo_bad_result_def demo_png_result_def)

section \<open>Resizing\<close>

lemma percentActive_iff:
  "percentActive options \<longleftrightarrow> (\<exists>q. ResizePercent options = Finite q \<and> 0 < q \<and> q < 100)"
  by (cases "ResizePercent options") (simp_all add: percentActive_def float_eval)

lemma f_to_int_floor:
  "0 \<le> x \<Longrightarrow> x < 2 ^ 63 \<Longrightarrow> f_to_int oor (Finite x) = \<lfloor>x\<rfloor>"
proof -
  assume a: "0 \<le> x" "x < 2 ^ 63"
  have "\<lfloor>x\<rfloor> < 2 ^ 63" using a(2) by (simp add: floor_less_iff)
  moreover have "0 \<le> \<lfloor>x\<rfloor>" using a(1) by simp
  ultimately show ?thesis using a(1) by (simp add: trunc_rat_def)
qed

lemma round64_half: "round64 (1 / 2) = Finite (1 / 2)"
  using round64_exact [of 1 "- 1"] by (simp add: power_int_minus)

section \<open>Output paths\<close>





section \<open>Signs and bounds of rounded values\<close>








section \<open>The estimates and the reduction on the small system\<close>




















section \<open>The error of the rounded arithmetic\<close>

text \<open>
  One rounding moves a value by at most one part in \<open>2 ^ 53\<close> of itself, and by at most half the
  smallest subnormal near zero. Two or three roundings in a row therefore stay within one
  unit of the exact value on the sizes that occur, but can land on the other side of a
  whole number.
\<close>

lemma round_even_error: "\<bar>of_int (round_even y) - y\<bar> \<le> 1 / 2"
proof -
  define f where "f = \<lfloor>y\<rfloor>"
  have fb: "of_int f \<le> y" "y < of_int f + 1" unfolding f_def by linarith+
  consider "y - of_int f < 1 / 2" | "1 / 2 < y - of_int f" | "y - of_int f = 1 / 2" by linarith
  then show ?thesis
  proof cases
    case 1
    then have "round_even y = f" by (simp add: round_even_def f_def)
    with 1 fb show ?thesis by simp
  next
    case 2
    then have "round_even y = f + 1" by (simp add: round_even_def f_def)
    with 2 fb show ?thesis by simp
  next
    case 3
    then have "round_even y = f \<or> round_even y = f + 1" by (simp add: round_even_def f_def Let_def)
    with 3 fb show ?thesis by auto
  qed
qed

lemma round_grid_error: "\<bar>round_grid x - x\<bar> \<le> \<bar>x\<bar> / 2 ^ 53 + power_int 2 (- 1075)"
proof (cases "x = 0")
  case True
  then show ?thesis by (simp add: round_grid_def)
next
  case False
  define k where "k = ilog2 \<bar>x\<bar>"
  define e where "e = ulp_exp x"
  define t :: rat where "t = power_int 2 (- 1075)"
  have t: "0 < t" by (simp add: t_def)
  have pos: "0 < \<bar>x\<bar>" using False by simp
  from ilog2_bounds [OF pos] have b: "power_int 2 k \<le> \<bar>x\<bar>" by (simp add: k_def)
  have e: "e = max (k - 52) (- 1074)" by (simp add: e_def ulp_exp_def k_def)
  have pe: "0 < power_int (2::rat) e" by simp
  have rg: "round_grid x = of_int (round_even (x / power_int 2 e)) * power_int 2 e"
    using False by (simp add: round_grid_def e_def)
  have "round_grid x - x = (of_int (round_even (x / power_int 2 e)) - x / power_int 2 e) * power_int 2 e"
    unfolding rg using pe by (simp add: field_simps)
  then have "\<bar>round_grid x - x\<bar> = \<bar>of_int (round_even (x / power_int 2 e)) - x / power_int 2 e\<bar> * power_int 2 e"
    using pe by (simp add: abs_mult)
  also have "\<dots> \<le> 1 / 2 * power_int 2 e"
    using round_even_error [of "x / power_int 2 e"] pe by (intro mult_right_mono) simp_all
  finally have err: "\<bar>round_grid x - x\<bar> \<le> power_int 2 e / 2" by simp
  have half: "power_int (2::rat) e / 2 = power_int 2 (e - 1)" by (simp add: power_int_diff)
  show ?thesis
  proof (cases "- 1074 \<le> k - 52")
    case True
    then have "e - 1 = k - 53" using e by simp
    then have "power_int (2::rat) (e - 1) = power_int 2 (k - 53)" by (simp only:)
    also have "\<dots> = power_int 2 k / 2 ^ 53" by (simp add: power_int_diff)
    also have "\<dots> \<le> \<bar>x\<bar> / 2 ^ 53" using b by (intro divide_right_mono) simp_all
    finally have "\<bar>round_grid x - x\<bar> \<le> \<bar>x\<bar> / 2 ^ 53" using err unfolding half by simp
    with t show ?thesis unfolding t_def [symmetric] by linarith
  next
    case False
    then have "e - 1 = - 1075" using e by simp
    then have "\<bar>round_grid x - x\<bar> \<le> t" using err unfolding half t_def by (simp only:)
    moreover have "0 \<le> \<bar>x\<bar> / 2 ^ 53" by simp
    ultimately show ?thesis unfolding t_def [symmetric] by linarith
  qed
qed

lemma round_grid_error_abs: "\<bar>round_grid x - x\<bar> \<le> \<bar>x\<bar> / 2 ^ 53 + 1 / 2 ^ 200"
proof -
  define t :: rat where "t = power_int 2 (- 1075)"
  define u :: rat where "u = 1 / 2 ^ 200"
  have "power_int (2::rat) (- 1075) \<le> power_int 2 (- 200)"
    by (intro power_int_increasing) simp_all
  also have "power_int (2::rat) (- 200) = 1 / 2 ^ 200"
    by (simp only: power_int_minus power_int_numeral inverse_eq_divide)
  finally have "t \<le> u" by (simp only: t_def u_def)
  moreover have "\<bar>round_grid x - x\<bar> \<le> \<bar>x\<bar> / 2 ^ 53 + t"
    using round_grid_error [of x] unfolding t_def .
  ultimately have "\<bar>round_grid x - x\<bar> \<le> \<bar>x\<bar> / 2 ^ 53 + u" by linarith
  then show ?thesis unfolding u_def .
qed

lemma round_grid_nonneg: "0 \<le> x \<Longrightarrow> 0 \<le> round_grid x"
proof -
  assume a: "0 \<le> x"
  show ?thesis
  proof (cases "x = 0")
    case True
    then show ?thesis by (simp add: round_grid_def)
  next
    case False
    have "of_int 0 \<le> x / power_int 2 (ulp_exp x)" using a by simp
    then have "0 \<le> round_even (x / power_int 2 (ulp_exp x))" by (rule round_even_ge)
    then show ?thesis using False by (simp add: round_grid_def)
  qed
qed

lemma floor_within_one:
  fixes v E :: rat
  assumes "\<bar>v - E\<bar> < 1"
  shows "\<bar>\<lfloor>v\<rfloor> - \<lfloor>E\<rfloor>\<bar> \<le> 1"
proof -
  have "v < E + 1" "E - 1 < v" using assms by (simp_all add: abs_less_iff)
  then show ?thesis by linarith
qed


lemma round64_bounded:
  assumes "\<bar>x\<bar> \<le> 2 ^ 100"
  shows "round64 x = Finite (round_grid x)"
proof -
  have "\<bar>round_grid x\<bar> \<le> \<bar>round_grid x - x\<bar> + \<bar>x\<bar>" by simp
  also have "\<dots> \<le> \<bar>x\<bar> / 2 ^ 53 + 1 / 2 ^ 200 + \<bar>x\<bar>"
    using round_grid_error_abs [of x] by simp
  also have "\<dots> \<le> 2 ^ 102" using assms by simp
  also have "(2::rat) ^ 102 < 2 ^ 1024" by (rule power_strict_increasing) simp_all
  finally show ?thesis by (rule round64_Finite)
qed

lemma percent_axis_value:
  assumes "0 < q" "q < 100" "0 \<le> n" "n < 2 ^ 50"
  shows "\<exists>v. f_div (f_mul (f_of_int n) (Finite q)) (f_const 100) = Finite v
              \<and> 0 \<le> v \<and> \<bar>v - of_int n * q / 100\<bar> < 1"
proof -
  define N :: rat where "N = of_int n"
  have N: "0 \<le> N" "N < 2 ^ 50" using assms(3,4) by (simp_all add: N_def)
  have fn: "f_of_int n = Finite N"
    using assms(3,4) by (simp add: f_of_int_def N_def round64_of_int)
  define A where "A = N * q"
  have A0: "0 \<le> A" using N(1) assms(1) by (simp add: A_def)
  have "N * q \<le> N * 100" using N(1) assms(2) by (intro mult_left_mono) simp_all
  then have A1: "A < 100 * 2 ^ 50" using N(2) by (simp add: A_def)
  define m where "m = round_grid A"
  have m0: "0 \<le> m" using A0 by (simp add: m_def round_grid_nonneg)
  have me: "\<bar>m - A\<bar> \<le> \<bar>A\<bar> / 2 ^ 53 + 1 / 2 ^ 200" unfolding m_def by (rule round_grid_error_abs)
  have "\<bar>A\<bar> \<le> 2 ^ 100" using A0 A1 by simp
  then have fm: "round64 A = Finite m" unfolding m_def by (rule round64_bounded)
  define v where "v = round_grid (m / 100)"
  have v0: "0 \<le> v" using m0 by (simp add: v_def round_grid_nonneg)
  have ve: "\<bar>v - m / 100\<bar> \<le> \<bar>m / 100\<bar> / 2 ^ 53 + 1 / 2 ^ 200"
    unfolding v_def by (rule round_grid_error_abs)
  have mb: "m \<le> 2 ^ 58" using me A0 A1 by simp
  then have "\<bar>m / 100\<bar> \<le> 2 ^ 100" using m0 by simp
  then have fv: "round64 (m / 100) = Finite v" unfolding v_def by (rule round64_bounded)
  have "f_div (f_mul (f_of_int n) (Finite q)) (f_const 100) = Finite v"
    by (simp add: fn f_const_def round64_numeral A_def [symmetric] fm fv)
  moreover have "\<bar>v - A / 100\<bar> < 1" using me ve A0 A1 m0 mb by simp
  ultimately show ?thesis using v0 by (auto simp: A_def N_def)
qed

lemma ratio_axis_value:
  assumes "0 < a" "a < 2 ^ 53" "0 < b" "b < 2 ^ 53" "0 \<le> c" "c < 2 ^ 53"
    and "of_int c * of_int a / of_int b < (2 ^ 50 :: rat)"
  shows "\<exists>v. f_mul (f_of_int c) (f_div (f_of_int a) (f_of_int b)) = Finite v
              \<and> 0 \<le> v \<and> \<bar>v - of_int c * of_int a / of_int b\<bar> < 1"
proof -
  define a' :: rat where "a' = of_int a"
  define b' :: rat where "b' = of_int b"
  define c' :: rat where "c' = of_int c"
  have ab: "0 < a'" "a' < 2 ^ 53" "0 < b'" "1 \<le> b'" "0 \<le> c'" "c' < 2 ^ 53"
    using assms(1-6) by (simp_all add: a'_def b'_def c'_def)
  have fl: "f_of_int a = Finite a'" "f_of_int b = Finite b'" "f_of_int c = Finite c'"
    using assms(1-6) by (simp_all add: f_of_int_def a'_def b'_def c'_def round64_of_int)
  define qq where "qq = a' / b'"
  have q0: "0 < qq" using ab by (simp add: qq_def)
  have "a' / b' \<le> a' / 1" using ab by (intro divide_left_mono) simp_all
  then have q1: "qq < 2 ^ 53" using ab by (simp add: qq_def)
  define r where "r = round_grid qq"
  have r0: "0 \<le> r" using q0 by (simp add: r_def round_grid_nonneg)
  have re: "\<bar>r - qq\<bar> \<le> \<bar>qq\<bar> / 2 ^ 53 + 1 / 2 ^ 200" unfolding r_def by (rule round_grid_error_abs)
  have "\<bar>qq\<bar> \<le> 2 ^ 100" using q0 q1 by simp
  then have fr: "round64 qq = Finite r" unfolding r_def by (rule round64_bounded)
  define E where "E = c' * qq"
  have E0: "0 \<le> E" using ab q0 by (simp add: E_def)
  have E1: "E < 2 ^ 50" using assms(7) by (simp add: E_def qq_def a'_def b'_def c'_def)
  define X where "X = c' * r"
  have X0: "0 \<le> X" using ab r0 by (simp add: X_def)
  have "X - E = c' * (r - qq)" by (simp add: X_def E_def algebra_simps)
  then have "\<bar>X - E\<bar> = c' * \<bar>r - qq\<bar>" using ab by (simp add: abs_mult)
  also have "\<dots> \<le> c' * (\<bar>qq\<bar> / 2 ^ 53 + 1 / 2 ^ 200)"
    using re ab by (intro mult_left_mono) simp_all
  also have "\<dots> = E / 2 ^ 53 + c' / 2 ^ 200" using q0 by (simp add: E_def algebra_simps)
  finally have Xe: "\<bar>X - E\<bar> \<le> E / 2 ^ 53 + c' / 2 ^ 200" .
  define v where "v = round_grid X"
  have v0: "0 \<le> v" using X0 by (simp add: v_def round_grid_nonneg)
  have ve: "\<bar>v - X\<bar> \<le> \<bar>X\<bar> / 2 ^ 53 + 1 / 2 ^ 200" unfolding v_def by (rule round_grid_error_abs)
  have Xb: "X \<le> 2 ^ 51" using Xe E0 E1 ab by simp
  then have "\<bar>X\<bar> \<le> 2 ^ 100" using X0 by simp
  then have fv: "round64 X = Finite v" unfolding v_def by (rule round64_bounded)
  have "b' \<noteq> 0" using ab by simp
  then have "f_mul (f_of_int c) (f_div (f_of_int a) (f_of_int b)) = Finite v"
    by (simp add: fl qq_def [symmetric] fr X_def [symmetric] fv)
  moreover have "\<bar>v - E\<bar> < 1" using Xe ve E0 E1 X0 Xb ab by simp
  moreover have "E = of_int c * of_int a / of_int b" by (simp add: E_def qq_def a'_def b'_def c'_def)
  ultimately show ?thesis using v0 by auto
qed

lemma f_to_int_within_one:
  assumes "0 \<le> v" "\<bar>v - E\<bar> < 1" "E < 2 ^ 50"
  shows "\<bar>f_to_int oor (Finite v) - \<lfloor>E\<rfloor>\<bar> \<le> 1"
proof -
  have "v < 2 ^ 63" using assms(2,3) by simp
  with assms(1) have "f_to_int oor (Finite v) = \<lfloor>v\<rfloor>" by (rule f_to_int_floor)
  with floor_within_one [OF assms(2)] show ?thesis by simp
qed

subsection \<open>The two computed axes of \<open>applyResize\<close>\<close>

lemma percent_axis_whole:
  assumes "0 < p" "p < 100" "0 \<le> n" "n < 2 ^ 46"
  shows "f_to_int oor (f_div (f_mul (f_of_int n) (Finite (of_int p))) (f_const 100))
           = n * p div 100"
proof -
  define A where "A = n * p"
  have A0: "0 \<le> A" using assms(1,3) by (simp add: A_def)
  have "n * p \<le> n * 100" using assms(2,3) by (intro mult_left_mono) simp_all
  then have A1: "A < 100 * 2 ^ 46" using assms(4) by (simp add: A_def)
  have fn: "f_of_int n = Finite (of_int n)"
    using assms(3,4) by (simp add: f_of_int_def round64_of_int)
  have "\<bar>A\<bar> < 2 ^ 53" using A0 A1 by simp
  then have fa: "round64 (of_int A) = Finite (of_int A)" by (rule round64_of_int)
  define k where "k = A div 100"
  define r where "r = A mod 100"
  have kr: "A = 100 * k + r" "0 \<le> r" "r < 100" by (simp_all add: k_def r_def)
  have k0: "0 \<le> k" using A0 by (simp add: k_def pos_imp_zdiv_nonneg_iff)
  have k1: "k < 2 ^ 46" using A1 by (simp add: k_def div_less_iff_less_mult)
  define x :: rat where "x = of_int A / 100"
  have xk: "x = of_int k + of_int r / 100" by (simp add: x_def kr(1))
  have d: "f_div (f_mul (f_of_int n) (Finite (of_int p))) (f_const 100) = round64 x"
    using fa by (simp add: fn f_const_def round64_numeral A_def x_def)
  have "\<exists>v. round64 x = Finite v \<and> \<lfloor>v\<rfloor> = k \<and> 0 \<le> v \<and> v < 2 ^ 63"
  proof (cases "r = 0")
    case True
    have "\<bar>k\<bar> < 2 ^ 53" using k0 k1 by simp
    then have "round64 (of_int k) = Finite (of_int k)" by (rule round64_of_int)
    moreover have "(of_int k :: rat) < 2 ^ 63" using k1 by simp
    ultimately show ?thesis using True k0 by (simp add: xk)
  next
    case False
    then have r1: "1 \<le> r" "r \<le> 99" using kr by simp_all
    define d :: rat where "d = of_int r / 100"
    define K :: rat where "K = of_int k"
    have rq: "1 / 100 \<le> d" "d \<le> 99 / 100" using r1 by (simp_all add: d_def)
    have kq: "0 \<le> K" "K \<le> 2 ^ 46 - 1" using k0 k1 by (simp_all add: K_def)
    have xK: "x = K + d" by (simp add: xk K_def d_def)
    define v where "v = round_grid x"
    have x0: "0 \<le> x" "x < 2 ^ 46" using rq kq by (simp_all add: xK)
    have ve: "\<bar>v - x\<bar> \<le> \<bar>x\<bar> / 2 ^ 53 + 1 / 2 ^ 200" unfolding v_def by (rule round_grid_error_abs)
    have "\<bar>x\<bar> \<le> 2 ^ 100" using x0 by simp
    then have fv: "round64 x = Finite v" unfolding v_def by (rule round64_bounded)
    have "\<bar>x\<bar> / 2 ^ 53 \<le> 1 / 128" using x0 by simp
    moreover have "(1::rat) / 2 ^ 200 \<le> 1 / 1000" by simp
    ultimately have "\<bar>v - x\<bar> \<le> 1 / 128 + 1 / 1000" using ve by linarith
    then have vb: "K < v" "v < K + 1" using rq xK by linarith+
    then have "\<lfloor>v\<rfloor> = k" unfolding K_def by (intro floor_unique) simp_all
    moreover have "0 \<le> v" "v < 2 ^ 63" using vb kq by simp_all
    ultimately show ?thesis using fv by simp
  qed
  then obtain v where v: "round64 x = Finite v" "\<lfloor>v\<rfloor> = k" "0 \<le> v" "v < 2 ^ 63" by blast
  have "f_to_int oor (Finite v) = \<lfloor>v\<rfloor>" using v(3,4) by (rule f_to_int_floor)
  then show ?thesis by (simp add: d v k_def A_def)
qed

lemma numbers_49: "f_of_int 1 = Finite 1" "f_of_int 49 = Finite 49"
  by (simp_all add: float_eval)

lemma one_49th: "f_div (f_of_int 1) (f_of_int 49) = Finite (5882252574524729 / 288230376151711744)"
  unfolding numbers_49 by simp (rule round64_cert [where k = "- 6" and m = 5882252574524729], simp+)

lemma one_49th_times_49:
  "f_mul (f_of_int 49) (f_div (f_of_int 1) (f_of_int 49)) = Finite (9007199254740991 / 9007199254740992)"
  unfolding one_49th unfolding numbers_49 by simp (rule round64_cert [where k = "- 1" and m = 9007199254740991], simp+)

lemma applyResize_49:
  "applyResize demo_sys (Decoded 49 49) (DefaultOptions\<lparr>ResizeHeight := 1\<rparr>)
     = Resized (Decoded 49 49) 0 1"
proof -
  have "\<lfloor>9007199254740991 / 9007199254740992 :: rat\<rfloor> = 0" by (rule floor_unique) simp_all
  then have t: "f_to_int oor (Finite (9007199254740991 / 9007199254740992)) = 0" for oor
    by (simp add: trunc_rat_def)
  have p: "\<not> percentActive (DefaultOptions\<lparr>ResizeHeight := 1\<rparr>)"
    by (simp add: percentActive_def DefaultOptions_def float_eval)
  show ?thesis
    unfolding applyResize_def Let_def using p
    by (simp add: DefaultOptions_def demo_sys_def one_49th_times_49 t del: f_to_int.simps)
qed

lemma percent_axis_accuracy:
  assumes "0 < q" "q < 100" "0 \<le> n" "n < 2 ^ 50"
  shows "\<bar>f_to_int oor (f_div (f_mul (f_of_int n) (Finite q)) (f_const 100))
            - \<lfloor>of_int n * q / 100\<rfloor>\<bar> \<le> 1"
proof -
  from percent_axis_value [OF assms] obtain v where
    v: "f_div (f_mul (f_of_int n) (Finite q)) (f_const 100) = Finite v" "0 \<le> v"
       "\<bar>v - of_int n * q / 100\<bar> < 1" by blast
  have "of_int n * q \<le> of_int n * 100" using assms(2,3) by (intro mult_left_mono) simp_all
  moreover have "(of_int n :: rat) < 2 ^ 50" using assms(4) by simp
  ultimately have "of_int n * q / 100 < 2 ^ 50" by simp
  with v(2,3) show ?thesis unfolding v(1) by (rule f_to_int_within_one)
qed

lemma ratio_axis_accuracy:
  assumes "0 < a" "a < 2 ^ 53" "0 < b" "b < 2 ^ 53" "0 \<le> c" "c < 2 ^ 53"
    and "of_int c * of_int a / of_int b < (2 ^ 50 :: rat)"
  shows "\<bar>f_to_int oor (f_mul (f_of_int c) (f_div (f_of_int a) (f_of_int b)))
            - \<lfloor>of_int c * of_int a / of_int b :: rat\<rfloor>\<bar> \<le> 1"
proof -
  from ratio_axis_value [OF assms] obtain v where
    v: "f_mul (f_of_int c) (f_div (f_of_int a) (f_of_int b)) = Finite v" "0 \<le> v"
       "\<bar>v - of_int c * of_int a / of_int b\<bar> < 1" by blast
  from v(2,3) assms(7) show ?thesis unfolding v(1) by (rule f_to_int_within_one)
qed

subsection \<open>The two size estimates\<close>

















section \<open>The semaphore\<close>

lemma count_update:
  "i < length xs \<Longrightarrow>
     length (filter P (xs[i := y])) + (if P (xs ! i) then 1 else 0)
       = length (filter P xs) + (if P y then 1 else 0)"
proof (induction xs arbitrary: i)
  case Nil
  then show ?case by simp
next
  case (Cons x xs)
  then show ?case by (cases i) auto
qed

lemma holders_move:
  "i < length (pcs s) \<Longrightarrow>
     holders (move s i p) + (if holds_slot (pcs s ! i) then 1 else 0)
       = holders s + (if holds_slot p then 1 else 0)"
  using count_update [of i "pcs s" holds_slot p] by (simp add: holders_def move_def)

lemma fire_holders:
  assumes "fire e s = Some s'" "holders s = semaphore s"
  shows "holders s' = semaphore s'"
proof (cases e)
  case (Spawn i)
  with assms holders_move [of i s Waiting] show ?thesis
    by (auto simp: worker_at_def move_def holders_def split: if_splits)
next
  case (Acquire i)
  with assms holders_move [of i s Compressing] show ?thesis
    by (auto simp: worker_at_def move_def holders_def split: if_splits)
next
  case (Return i ok)
  with assms holders_move [of i s "Compressed ok"] show ?thesis
    by (auto simp: worker_at_def move_def holders_def split: if_splits)
next
  case (Lock i)
  with assms holders_move [of i s "Critical True"] holders_move [of i s "Critical False"] show ?thesis
    by (auto simp: worker_at_def move_def holders_def split: if_splits)
next
  case (Unlock i)
  with assms holders_move [of i s Sending] show ?thesis
    by (auto simp: worker_at_def move_def holders_def split: if_splits)
next
  case (Panic i)
  with assms holders_move [of i s Panicking] show ?thesis
    by (auto simp: worker_at_def move_def holders_def split: if_splits)
next
  case (Send i)
  with assms holders_move [of i s Releasing] show ?thesis
    by (auto simp: worker_at_def move_def holders_def split: if_splits)
next
  case (Release i)
  with assms holders_move [of i s Finished] show ?thesis
    by (auto simp: worker_at_def move_def holders_def split: if_splits)
qed

lemma fire_cap:
  assumes "fire e s = Some s'" "semaphore s \<le> semaphore_cap"
  shows "semaphore s' \<le> semaphore_cap"
  using assms by (cases e) (auto simp: move_def split: if_splits)

lemma run_events_invariant:
  assumes "run_events es s = Some s'" "holders s = semaphore s" "semaphore s \<le> semaphore_cap"
  shows "holders s' = semaphore s' \<and> semaphore s' \<le> semaphore_cap"
  using assms
proof (induction es arbitrary: s)
  case Nil
  then show ?case by simp
next
  case (Cons e es)
  from Cons.prems(1) obtain s1 where f: "fire e s = Some s1" and r: "run_events es s1 = Some s'"
    by (auto split: option.splits)
  from fire_holders [OF f Cons.prems(2)] fire_cap [OF f Cons.prems(3)] Cons.IH [OF r]
  show ?case by simp
qed

lemma in_flight_le_holders: "in_flight s \<le> holders s"
proof -
  have "length (filter (\<lambda>p. p = Compressing) xs) \<le> length (filter holds_slot xs)" for xs
    by (induction xs) auto
  then show ?thesis by (simp add: in_flight_def holders_def)
qed

lemma fire_Release:
  "fire (Release i) s = Some s' \<Longrightarrow> pcs s ! i = Releasing \<or> pcs s ! i = Panicking"
  by (auto simp: worker_at_def split: if_splits)

lemma fire_Acquire:
  "fire (Acquire i) s = Some s' \<Longrightarrow> semaphore s < semaphore_cap \<and> pcs s' ! i = Compressing"
  by (auto simp: worker_at_def move_def split: if_splits)

section \<open>Properties\<close>

text \<open>
  C10. A zero original size is guarded: \<open>CalculateReduction(0, c)\<close> returns 0 for every
  compressed size \<open>c\<close>, without reaching the division.
\<close>

theorem CalculateReduction_zero_original: "CalculateReduction 0 c = Finite 0"
  by (simp add: CalculateReduction_def)

text \<open>
  C5. Every result of the JPEG and of the PNG \<open>Compress\<close> has its \<open>Error\<close> set exactly when
  \<open>Success\<close> is false, and the error returned beside the result is that same \<open>Error\<close>.
  Each step that fails, after the steps before it have succeeded, gives a result with
  \<open>Success\<close> false and the step's own error: the stat of the input, the decode, the
  creation of the output directory, the creation of the output file, the encode and the
  stat of the output. When every step succeeds the result is successful and carries the
  two sizes. The functions are total over every behaviour of the file system and the
  codecs, so no step leaves them without a result.
\<close>

theorem Compress_Error_iff_not_Success:
  "(Error (fst (fst (JPEG_Compress sys inputPath options w))) \<noteq> None)
     = (\<not> Success (fst (fst (JPEG_Compress sys inputPath options w))))
   \<and> snd (fst (JPEG_Compress sys inputPath options w))
     = Error (fst (fst (JPEG_Compress sys inputPath options w)))
   \<and> (Error (fst (fst (PNG_Compress sys inputPath options w))) \<noteq> None)
     = (\<not> Success (fst (fst (PNG_Compress sys inputPath options w))))
   \<and> snd (fst (PNG_Compress sys inputPath options w))
     = Error (fst (fst (PNG_Compress sys inputPath options w)))
   \<and> (\<forall>err.
         os_Stat sys inputPath w = Inl err \<longrightarrow>
         \<not> Success (fst (fst (JPEG_Compress sys inputPath options w)))
         \<and> Error (fst (fst (JPEG_Compress sys inputPath options w)))
             = Some (''failed to get input file info: '' @ err))
   \<and> (\<forall>n err.
         os_Stat sys inputPath w = Inr n
         \<and> imaging_Open sys inputPath w = Inl err \<longrightarrow>
         \<not> Success (fst (fst (JPEG_Compress sys inputPath options w)))
         \<and> Error (fst (fst (JPEG_Compress sys inputPath options w)))
             = Some (''failed to open image: '' @ err))
   \<and> (\<forall>n decoded err w1.
         os_Stat sys inputPath w = Inr n
         \<and> imaging_Open sys inputPath w = Inr decoded
         \<and> OutputDir options \<noteq> []
         \<and> os_MkdirAll sys (OutputDir options) w = (Some err, w1) \<longrightarrow>
         \<not> Success (fst (fst (JPEG_Compress sys inputPath options w)))
         \<and> Error (fst (fst (JPEG_Compress sys inputPath options w)))
             = Some (''failed to create output directory: '' @ err))
   \<and> (\<forall>n decoded w1 err w2.
         os_Stat sys inputPath w = Inr n
         \<and> imaging_Open sys inputPath w = Inr decoded
         \<and> (if OutputDir options \<noteq> [] then os_MkdirAll sys (OutputDir options) w
           else (None, w)) = (None, w1)
         \<and> os_Create sys (GenerateOutputPath (filepath_Clean sys) inputPath options) w1 = (Some err, w2) \<longrightarrow>
         \<not> Success (fst (fst (JPEG_Compress sys inputPath options w)))
         \<and> Error (fst (fst (JPEG_Compress sys inputPath options w)))
             = Some (''failed to create output file: '' @ err))
   \<and> (\<forall>n decoded w1 w2 err w3.
         os_Stat sys inputPath w = Inr n
         \<and> imaging_Open sys inputPath w = Inr decoded
         \<and> (if OutputDir options \<noteq> [] then os_MkdirAll sys (OutputDir options) w
           else (None, w)) = (None, w1)
         \<and> os_Create sys (GenerateOutputPath (filepath_Clean sys) inputPath options) w1 = (None, w2)
         \<and> jpeg_Encode sys (GenerateOutputPath (filepath_Clean sys) inputPath options)
               (applyResize sys decoded options) (Quality options) w2
             = (Some err, w3) \<longrightarrow>
         \<not> Success (fst (fst (JPEG_Compress sys inputPath options w)))
         \<and> Error (fst (fst (JPEG_Compress sys inputPath options w)))
             = Some (''failed to encode JPEG: '' @ err))
   \<and> (\<forall>n decoded w1 w2 w3 err.
         os_Stat sys inputPath w = Inr n
         \<and> imaging_Open sys inputPath w = Inr decoded
         \<and> (if OutputDir options \<noteq> [] then os_MkdirAll sys (OutputDir options) w
           else (None, w)) = (None, w1)
         \<and> os_Create sys (GenerateOutputPath (filepath_Clean sys) inputPath options) w1 = (None, w2)
         \<and> jpeg_Encode sys (GenerateOutputPath (filepath_Clean sys) inputPath options)
               (applyResize sys decoded options) (Quality options) w2
             = (None, w3)
         \<and> os_Stat sys (GenerateOutputPath (filepath_Clean sys) inputPath options) w3 = Inl err \<longrightarrow>
         \<not> Success (fst (fst (JPEG_Compress sys inputPath options w)))
         \<and> Error (fst (fst (JPEG_Compress sys inputPath options w)))
             = Some (''failed to get output file info: '' @ err))
   \<and> (\<forall>n decoded w1 w2 w3 m.
         os_Stat sys inputPath w = Inr n
         \<and> imaging_Open sys inputPath w = Inr decoded
         \<and> (if OutputDir options \<noteq> [] then os_MkdirAll sys (OutputDir options) w
           else (None, w)) = (None, w1)
         \<and> os_Create sys (GenerateOutputPath (filepath_Clean sys) inputPath options) w1 = (None, w2)
         \<and> jpeg_Encode sys (GenerateOutputPath (filepath_Clean sys) inputPath options)
               (applyResize sys decoded options) (Quality options) w2
             = (None, w3)
         \<and> os_Stat sys (GenerateOutputPath (filepath_Clean sys) inputPath options) w3 = Inr m \<longrightarrow>
         Success (fst (fst (JPEG_Compress sys inputPath options w)))
         \<and> Error (fst (fst (JPEG_Compress sys inputPath options w))) = None
         \<and> InputSize (fst (fst (JPEG_Compress sys inputPath options w))) = n
         \<and> OutputSize (fst (fst (JPEG_Compress sys inputPath options w))) = m)
   \<and> (\<forall>err.
         os_Stat sys inputPath w = Inl err \<longrightarrow>
         \<not> Success (fst (fst (PNG_Compress sys inputPath options w)))
         \<and> Error (fst (fst (PNG_Compress sys inputPath options w)))
             = Some (''failed to get input file info: '' @ err))
   \<and> (\<forall>n err.
         os_Stat sys inputPath w = Inr n
         \<and> imaging_Open sys inputPath w = Inl err \<longrightarrow>
         \<not> Success (fst (fst (PNG_Compress sys inputPath options w)))
         \<and> Error (fst (fst (PNG_Compress sys inputPath options w)))
             = Some (''failed to open image: '' @ err))
   \<and> (\<forall>n decoded err w1.
         os_Stat sys inputPath w = Inr n
         \<and> imaging_Open sys inputPath w = Inr decoded
         \<and> OutputDir options \<noteq> []
         \<and> os_MkdirAll sys (OutputDir options) w = (Some err, w1) \<longrightarrow>
         \<not> Success (fst (fst (PNG_Compress sys inputPath options w)))
         \<and> Error (fst (fst (PNG_Compress sys inputPath options w)))
             = Some (''failed to create output directory: '' @ err))
   \<and> (\<forall>n decoded w1 err w2.
         os_Stat sys inputPath w = Inr n
         \<and> imaging_Open sys inputPath w = Inr decoded
         \<and> (if OutputDir options \<noteq> [] then os_MkdirAll sys (OutputDir options) w
           else (None, w)) = (None, w1)
         \<and> os_Create sys (GenerateOutputPath (filepath_Clean sys) inputPath options) w1 = (Some err, w2) \<longrightarrow>
         \<not> Success (fst (fst (PNG_Compress sys inputPath options w)))
         \<and> Error (fst (fst (PNG_Compress sys inputPath options w)))
             = Some (''failed to create output file: '' @ err))
   \<and> (\<forall>n decoded w1 w2 err w3.
         os_Stat sys inputPath w = Inr n
         \<and> imaging_Open sys inputPath w = Inr decoded
         \<and> (if OutputDir options \<noteq> [] then os_MkdirAll sys (OutputDir options) w
           else (None, w)) = (None, w1)
         \<and> os_Create sys (GenerateOutputPath (filepath_Clean sys) inputPath options) w1 = (None, w2)
         \<and> png_Encode sys (GenerateOutputPath (filepath_Clean sys) inputPath options)
               (applyResize sys decoded options) (pngLevel (CompressionLevel options)) w2
             = (Some err, w3) \<longrightarrow>
         \<not> Success (fst (fst (PNG_Compress sys inputPath options w)))
         \<and> Error (fst (fst (PNG_Compress sys inputPath options w)))
             = Some (''failed to encode PNG: '' @ err))
   \<and> (\<forall>n decoded w1 w2 w3 err.
         os_Stat sys inputPath w = Inr n
         \<and> imaging_Open sys inputPath w = Inr decoded
         \<and> (if OutputDir options \<noteq> [] then os_MkdirAll sys (OutputDir options) w
           else (None, w)) = (None, w1)
         \<and> os_Create sys (GenerateOutputPath (filepath_Clean sys) inputPath options) w1 = (None, w2)
         \<and> png_Encode sys (GenerateOutputPath (filepath_Clean sys) inputPath options)
               (applyResize sys decoded options) (pngLevel (CompressionLevel options)) w2
             = (None, w3)
         \<and> os_Stat sys (GenerateOutputPath (filepath_Clean sys) inputPath options) w3 = Inl err \<longrightarrow>
         \<not> Success (fst (fst (PNG_Compress sys inputPath options w)))
         \<and> Error (fst (fst (PNG_Compress sys inputPath options w)))
             = Some (''failed to get output file info: '' @ err))
   \<and> (\<forall>n decoded w1 w2 w3 m.
         os_Stat sys inputPath w = Inr n
         \<and> imaging_Open sys inputPath w = Inr decoded
         \<and> (if OutputDir options \<noteq> [] then os_MkdirAll sys (OutputDir options) w
           else (None, w)) = (None, w1)
         \<and> os_Create sys (GenerateOutputPath (filepath_Clean sys) inputPath options) w1 = (None, w2)
         \<and> png_Encode sys (GenerateOutputPath (filepath_Clean sys) inputPath options)
               (applyResize sys decoded options) (pngLevel (CompressionLevel options)) w2
             = (None, w3)
         \<and> os_Stat sys (GenerateOutputPath (filepath_Clean sys) inputPath options) w3 = Inr m \<longrightarrow>
         Success (fst (fst (PNG_Compress sys inputPath options w)))
         \<and> Error (fst (fst (PNG_Compress sys inputPath options w))) = None
         \<and> InputSize (fst (fst (PNG_Compress sys inputPath options w))) = n
         \<and> OutputSize (fst (fst (PNG_Compress sys inputPath options w))) = m)"
proof -
  have a: "(Error (fst (fst (JPEG_Compress sys inputPath options w))) \<noteq> None)
           = (\<not> Success (fst (fst (JPEG_Compress sys inputPath options w))))
         \<and> snd (fst (JPEG_Compress sys inputPath options w))
           = Error (fst (fst (JPEG_Compress sys inputPath options w)))
         \<and> (Error (fst (fst (PNG_Compress sys inputPath options w))) \<noteq> None)
           = (\<not> Success (fst (fst (PNG_Compress sys inputPath options w))))
         \<and> snd (fst (PNG_Compress sys inputPath options w))
           = Error (fst (fst (PNG_Compress sys inputPath options w)))"
    using JPEG_Compress_Error_Success [of sys inputPath options w]
          PNG_Compress_Error_Success [of sys inputPath options w]
          JPEG_Compress_returned_error [of sys inputPath options w]
          PNG_Compress_returned_error [of sys inputPath options w]
    by simp
  from a JPEG_Compress_steps [of sys inputPath w options]
       PNG_Compress_steps [of sys inputPath w options]
  show ?thesis by (elim conjE) (intro conjI, assumption+)
qed

theorem Compress_Error_iff_not_Success_witness:
  "os_Stat demo_sys ''missing.jpg'' demo_input_files = Inl ''no such file or directory''
   \<and> \<not> Success (fst (fst (JPEG_Compress demo_sys ''missing.jpg'' DefaultOptions demo_input_files)))
   \<and> Error (fst (fst (JPEG_Compress demo_sys ''missing.jpg'' DefaultOptions demo_input_files)))
       = Some ''failed to get input file info: no such file or directory''
   \<and> os_Stat demo_sys ''bad.jpg'' demo_input_files = Inr 0
   \<and> imaging_Open demo_sys ''bad.jpg'' demo_input_files = Inl ''image: unknown format''
   \<and> \<not> Success (fst (fst (PNG_Compress demo_sys ''bad.jpg'' DefaultOptions demo_input_files)))
   \<and> Error (fst (fst (PNG_Compress demo_sys ''bad.jpg'' DefaultOptions demo_input_files)))
       = Some ''failed to open image: image: unknown format''"
proof -
  have s: "os_Stat demo_sys ''missing.jpg'' demo_input_files = Inl ''no such file or directory''"
    by (simp add: demo_sys_def demo_stat_def demo_input_files_def)
  have b: "os_Stat demo_sys ''bad.jpg'' demo_input_files = Inr 0"
    "imaging_Open demo_sys ''bad.jpg'' demo_input_files = Inl ''image: unknown format''"
    by (simp_all add: demo_sys_def demo_stat_def demo_input_files_def)
  from Compress_Error_iff_not_Success [of demo_sys "''missing.jpg''" DefaultOptions demo_input_files] s
  have "\<not> Success (fst (fst (JPEG_Compress demo_sys ''missing.jpg'' DefaultOptions demo_input_files)))
    \<and> Error (fst (fst (JPEG_Compress demo_sys ''missing.jpg'' DefaultOptions demo_input_files)))
       = Some ''failed to get input file info: no such file or directory''"
    by simp
  moreover
  from Compress_Error_iff_not_Success [of demo_sys "''bad.jpg''" DefaultOptions demo_input_files] b
  have "\<not> Success (fst (fst (PNG_Compress demo_sys ''bad.jpg'' DefaultOptions demo_input_files)))
    \<and> Error (fst (fst (PNG_Compress demo_sys ''bad.jpg'' DefaultOptions demo_input_files)))
       = Some ''failed to open image: image: unknown format''"
    by simp
  ultimately show ?thesis using s b by simp
qed

text \<open>
  C1. \<open>BatchCompress\<close> does not survive a path whose extension is not supported:
  \<open>CompressImage\<close> returns a nil result for it, the worker reads \<open>result.Success\<close> through
  the nil pointer and the panic ends the program, whatever the other paths are and in
  whichever order the workers run. No \<open>BatchResult\<close> is returned.
\<close>

theorem BatchCompress_unsupported_extension_panics:
  "fst (BatchCompress sys [''notes.txt'', ''photo.jpg''] options progressChan w)
     = Inl NilPointerDereference
   \<and> fst (BatchCompress sys [''photo.jpg'', ''notes.txt''] options progressChan w)
     = Inl NilPointerDereference"
proof -
  have fmt: "GetImageFormat ''notes.txt'' = Inl ''unsupported image format: .txt''"
    by (simp add: path_eval)
  have "fst (BatchCompress sys [''notes.txt'', ''photo.jpg''] options progressChan w)
          = Inl NilPointerDereference"
    by (rule BatchCompress_unsupported [OF _ fmt]) simp
  moreover have "fst (BatchCompress sys [''photo.jpg'', ''notes.txt''] options progressChan w)
          = Inl NilPointerDereference"
    by (rule BatchCompress_unsupported [OF _ fmt]) simp
  ultimately show ?thesis by (rule conjI)
qed

text \<open>
  C8. When a batch run returns, there is one result for each input path, the totals are
  the sums of the input and output sizes of
  exactly the successful results (sums of \<open>int64\<close>, and the true sums whenever those fit
  \<open>int64\<close>), the two counters count the successful and the failed results and add up to
  the number of results, and the overall reduction is \<open>(1 - TotalOutput/TotalInput) * 100\<close>,
  in \<open>float64\<close>, whenever \<open>TotalInput > 0\<close>.
\<close>

theorem BatchCompress_totals:
  assumes "BatchCompress sys order options progressChan w = (Inr b, progressChan', w')"
  shows "None \<notin> set (Results b)
    \<and> length (Results b) = length order
    \<and> map InputPath (present b) = order
    \<and> TotalInput b = sum_list (map InputSize (successful b))
    \<and> TotalOutput b = sum_list (map OutputSize (successful b))
    \<and> SuccessCount b = int (length (successful b))
    \<and> FailCount b = int (length (failed b))
    \<and> SuccessCount b + FailCount b = int (length (Results b))
    \<and> ((\<forall>r \<in> set (successful b). 0 \<le> sint (InputSize r))
          \<and> sum_list (map (sint \<circ> InputSize) (successful b)) < 2 ^ 63
        \<longrightarrow> sint (TotalInput b) = sum_list (map (sint \<circ> InputSize) (successful b)))
    \<and> ((\<forall>r \<in> set (successful b). 0 \<le> sint (OutputSize r))
          \<and> sum_list (map (sint \<circ> OutputSize) (successful b)) < 2 ^ 63
        \<longrightarrow> sint (TotalOutput b) = sum_list (map (sint \<circ> OutputSize) (successful b)))
    \<and> (0 < sint (TotalInput b)
        \<longrightarrow> TotalReduction b =
              f_mul (f_sub (f_const 1)
                           (f_div (f_of_int (sint (TotalOutput b))) (f_of_int (sint (TotalInput b)))))
                    (f_const 100))"
proof -
  from assms obtain b0 where
    run: "workers sys options order (newBatchResult, progressChan, w) = (Inr b0, progressChan', w')"
    and b: "b = finish b0"
    by (rule BatchCompress_Inr)
  from workers_aggregated [OF run aggregated_new]
  have "aggregated b0" and len: "length (Results b0) = length order"
    by (simp_all add: newBatchResult_def)
  then have agg: "aggregated b" by (simp add: b aggregated_finish)
  then have none: "None \<notin> set (Results b)"
    and ti: "TotalInput b = sum_list (map InputSize (successful b))"
    and to: "TotalOutput b = sum_list (map OutputSize (successful b))"
    and sc: "SuccessCount b = int (length (successful b))"
    and fc: "FailCount b = int (length (failed b))"
    by (simp_all add: aggregated_def)
  from workers_InputPath [OF run]
  have paths: "map InputPath (present b) = order"
    by (simp add: b present_def newBatchResult_def List.map_filter_def)
  have "length (present b) = length (Results b)"
    unfolding present_def using none by (rule present_all)
  with length_successful_failed [of b] sc fc
  have part: "SuccessCount b + FailCount b = int (length (Results b))" by simp
  have si: "sint (TotalInput b) = sum_list (map (sint \<circ> InputSize) (successful b))"
    if "\<forall>r \<in> set (successful b). 0 \<le> sint (InputSize r)"
       "sum_list (map (sint \<circ> InputSize) (successful b)) < 2 ^ 63"
    unfolding ti using sint_sum_list [of "map InputSize (successful b)"] that by simp
  have so: "sint (TotalOutput b) = sum_list (map (sint \<circ> OutputSize) (successful b))"
    if "\<forall>r \<in> set (successful b). 0 \<le> sint (OutputSize r)"
       "sum_list (map (sint \<circ> OutputSize) (successful b)) < 2 ^ 63"
    unfolding to using sint_sum_list [of "map OutputSize (successful b)"] that by simp
  have red: "TotalReduction b =
      f_mul (f_sub (f_const 1)
                   (f_div (f_of_int (sint (TotalOutput b))) (f_of_int (sint (TotalInput b)))))
            (f_const 100)"
    if "0 < sint (TotalInput b)"
  proof -
    from that have "0 < sint (TotalInput b0)" by (simp add: b)
    moreover from this have "TotalInput b0 \<noteq> 0" by auto
    ultimately show ?thesis by (simp add: b finish_def CalculateReduction_def)
  qed
  from none len paths ti to sc fc part si so red show ?thesis by (simp add: b)
qed

theorem BatchCompress_totals_witness:
  "BatchCompress demo_sys demo_paths DefaultOptions None demo_input_files
     = (Inr demo_batch_result, None, demo_output_files)
   \<and> map InputPath (present demo_batch_result) = demo_paths
   \<and> successful demo_batch_result = [demo_jpeg_result, demo_png_result]
   \<and> failed demo_batch_result = [demo_bad_result]
   \<and> TotalInput demo_batch_result = sum_list (map InputSize (successful demo_batch_result))
   \<and> TotalOutput demo_batch_result = sum_list (map OutputSize (successful demo_batch_result))
   \<and> TotalInput demo_batch_result = 3000 \<and> TotalOutput demo_batch_result = 1700
   \<and> SuccessCount demo_batch_result = 2 \<and> FailCount demo_batch_result = 1"
  using BatchCompress_totals [OF demo_batch] demo_batch
  by (simp add: successful_def failed_def present_def List.map_filter_def demo_batch_result_def
        demo_jpeg_result_def demo_bad_result_def demo_png_result_def demo_paths_def)

text \<open>
  C2, as stated, fails: a 49 by 49 source with \<open>ResizeHeight\<close> 1 and no width has the
  proportional width 49 times 1/49, which is 1, and \<open>applyResize\<close> asks the resampler for width
  0. The ratio \<open>float64(1) / float64(49)\<close> is rounded down, its product with 49 is
  \<open>1 - 1 / 2 ^ 53\<close>, and \<open>int\<close> truncates it to 0.
\<close>

theorem applyResize_proportional_counterexample:
  "applyResize demo_sys (Decoded 49 49) (DefaultOptions\<lparr>ResizeHeight := 1\<rparr>)
     = Resized (Decoded 49 49) 0 1
   \<and> \<lfloor>(49 :: rat) * (1 / 49)\<rfloor> = 1"
  using applyResize_49 by simp

text \<open>
  C2, amended. The target dimensions that \<open>applyResize\<close> hands to the resampler follow
  the three rules in order, in \<open>float64\<close> arithmetic rounded at every operation. With a
  percentage strictly between 0 and 100 both axes are \<open>int(float64(axis) * percent / 100)\<close>.
  Otherwise, if \<open>ResizeWidth\<close> or \<open>ResizeHeight\<close> is positive: an axis counts as given when
  it is not zero (so a negative one next to a positive one is passed on as it is); two given
  axes are used as they are, and a zero one is replaced by
  \<open>int(float64(source axis) * (float64(given) / float64(its source axis)))\<close>. Otherwise the
  image is returned as it is. How far this is from the exact rule: for a whole percentage
  and source axes below \<open>2 ^ 46\<close> both targets are exactly the floor of axis times percent
  over 100; for any percentage and axes below \<open>2 ^ 50\<close>, and for a proportional axis below
  \<open>2 ^ 50\<close> computed from positive axes below \<open>2 ^ 53\<close>, the target differs from the floor of
  the exact value by at most 1 (800 by 600 with width 400 gives height 300 exactly).
\<close>

theorem applyResize_dimensions:
  "(percentActive options \<longrightarrow>
      applyResize sys img options =
        imaging_Resize sys img
          (f_to_int (float_to_int_oor sys)
             (f_div (f_mul (f_of_int (Bounds_Dx sys img)) (ResizePercent options)) (f_const 100)))
          (f_to_int (float_to_int_oor sys)
             (f_div (f_mul (f_of_int (Bounds_Dy sys img)) (ResizePercent options)) (f_const 100))))
   \<and> (\<not> percentActive options \<and> (0 < ResizeWidth options \<or> 0 < ResizeHeight options) \<longrightarrow>
        (ResizeWidth options \<noteq> 0 \<and> ResizeHeight options \<noteq> 0 \<longrightarrow>
           applyResize sys img options =
             imaging_Resize sys img (ResizeWidth options) (ResizeHeight options))
      \<and> (ResizeHeight options = 0 \<longrightarrow>
           applyResize sys img options =
             imaging_Resize sys img (ResizeWidth options)
               (f_to_int (float_to_int_oor sys)
                  (f_mul (f_of_int (Bounds_Dy sys img))
                     (f_div (f_of_int (ResizeWidth options)) (f_of_int (Bounds_Dx sys img))))))
      \<and> (ResizeWidth options = 0 \<longrightarrow>
           applyResize sys img options =
             imaging_Resize sys img
               (f_to_int (float_to_int_oor sys)
                  (f_mul (f_of_int (Bounds_Dx sys img))
                     (f_div (f_of_int (ResizeHeight options)) (f_of_int (Bounds_Dy sys img)))))
               (ResizeHeight options)))
   \<and> (\<not> percentActive options \<and> ResizeWidth options \<le> 0 \<and> ResizeHeight options \<le> 0 \<longrightarrow>
        applyResize sys img options = img)
   \<and> (percentActive options
        \<longleftrightarrow> (\<exists>q. ResizePercent options = Finite q \<and> 0 < q \<and> q < 100))
   \<and> (\<forall>p. ResizePercent options = Finite (of_int p) \<and> 0 < p \<and> p < 100
          \<and> 0 \<le> Bounds_Dx sys img \<and> Bounds_Dx sys img < 2 ^ 46
          \<and> 0 \<le> Bounds_Dy sys img \<and> Bounds_Dy sys img < 2 ^ 46 \<longrightarrow>
        applyResize sys img options =
          imaging_Resize sys img (Bounds_Dx sys img * p div 100) (Bounds_Dy sys img * p div 100))
   \<and> (\<forall>q. ResizePercent options = Finite q \<and> 0 < q \<and> q < 100
          \<and> 0 \<le> Bounds_Dx sys img \<and> Bounds_Dx sys img < 2 ^ 50
          \<and> 0 \<le> Bounds_Dy sys img \<and> Bounds_Dy sys img < 2 ^ 50 \<longrightarrow>
        (\<exists>newWidth newHeight.
           applyResize sys img options = imaging_Resize sys img newWidth newHeight
           \<and> \<bar>newWidth - \<lfloor>of_int (Bounds_Dx sys img) * q / 100\<rfloor>\<bar> \<le> 1
           \<and> \<bar>newHeight - \<lfloor>of_int (Bounds_Dy sys img) * q / 100\<rfloor>\<bar> \<le> 1))
   \<and> (\<not> percentActive options \<and> ResizeHeight options = 0
        \<and> 0 < ResizeWidth options \<and> ResizeWidth options < 2 ^ 53
        \<and> 0 < Bounds_Dx sys img \<and> Bounds_Dx sys img < 2 ^ 53
        \<and> 0 \<le> Bounds_Dy sys img \<and> Bounds_Dy sys img < 2 ^ 53
        \<and> of_int (Bounds_Dy sys img) * of_int (ResizeWidth options) / of_int (Bounds_Dx sys img)
            < (2 ^ 50 :: rat) \<longrightarrow>
        (\<exists>newHeight.
           applyResize sys img options = imaging_Resize sys img (ResizeWidth options) newHeight
           \<and> \<bar>newHeight - \<lfloor>of_int (Bounds_Dy sys img) * of_int (ResizeWidth options)
                               / of_int (Bounds_Dx sys img) :: rat\<rfloor>\<bar> \<le> 1))
   \<and> (\<not> percentActive options \<and> ResizeWidth options = 0
        \<and> 0 < ResizeHeight options \<and> ResizeHeight options < 2 ^ 53
        \<and> 0 < Bounds_Dy sys img \<and> Bounds_Dy sys img < 2 ^ 53
        \<and> 0 \<le> Bounds_Dx sys img \<and> Bounds_Dx sys img < 2 ^ 53
        \<and> of_int (Bounds_Dx sys img) * of_int (ResizeHeight options) / of_int (Bounds_Dy sys img)
            < (2 ^ 50 :: rat) \<longrightarrow>
        (\<exists>newWidth.
           applyResize sys img options = imaging_Resize sys img newWidth (ResizeHeight options)
           \<and> \<bar>newWidth - \<lfloor>of_int (Bounds_Dx sys img) * of_int (ResizeHeight options)
                              / of_int (Bounds_Dy sys img) :: rat\<rfloor>\<bar> \<le> 1))
   \<and> (\<forall>x. 0 \<le> x \<and> x < 2 ^ 63 \<longrightarrow> f_to_int (float_to_int_oor sys) (Finite x) = \<lfloor>x\<rfloor>)"
proof -
  let ?toInt = "f_to_int (float_to_int_oor sys)"
  have r1: "percentActive options \<longrightarrow>
      applyResize sys img options =
        imaging_Resize sys img
          (?toInt (f_div (f_mul (f_of_int (Bounds_Dx sys img)) (ResizePercent options)) (f_const 100)))
          (?toInt (f_div (f_mul (f_of_int (Bounds_Dy sys img)) (ResizePercent options)) (f_const 100)))"
    by (simp add: applyResize_def Let_def del: f_to_int.simps)
  have r2: "\<not> percentActive options \<and> (0 < ResizeWidth options \<or> 0 < ResizeHeight options) \<longrightarrow>
        (ResizeWidth options \<noteq> 0 \<and> ResizeHeight options \<noteq> 0 \<longrightarrow>
           applyResize sys img options =
             imaging_Resize sys img (ResizeWidth options) (ResizeHeight options))
      \<and> (ResizeHeight options = 0 \<longrightarrow>
           applyResize sys img options =
             imaging_Resize sys img (ResizeWidth options)
               (?toInt (f_mul (f_of_int (Bounds_Dy sys img))
                     (f_div (f_of_int (ResizeWidth options)) (f_of_int (Bounds_Dx sys img))))))
      \<and> (ResizeWidth options = 0 \<longrightarrow>
           applyResize sys img options =
             imaging_Resize sys img
               (?toInt (f_mul (f_of_int (Bounds_Dx sys img))
                     (f_div (f_of_int (ResizeHeight options)) (f_of_int (Bounds_Dy sys img)))))
               (ResizeHeight options))"
    by (simp add: applyResize_def Let_def del: f_to_int.simps)
  have r3: "\<not> percentActive options \<and> ResizeWidth options \<le> 0 \<and> ResizeHeight options \<le> 0 \<longrightarrow>
        applyResize sys img options = img"
    by (simp add: applyResize_def Let_def del: f_to_int.simps)
  have whole: "\<forall>p. ResizePercent options = Finite (of_int p) \<and> 0 < p \<and> p < 100
          \<and> 0 \<le> Bounds_Dx sys img \<and> Bounds_Dx sys img < 2 ^ 46
          \<and> 0 \<le> Bounds_Dy sys img \<and> Bounds_Dy sys img < 2 ^ 46 \<longrightarrow>
        applyResize sys img options =
          imaging_Resize sys img (Bounds_Dx sys img * p div 100) (Bounds_Dy sys img * p div 100)"
  proof (intro allI impI, elim conjE)
    fix p :: int
    assume a: "ResizePercent options = Finite (of_int p)" "0 < p" "p < 100"
      "0 \<le> Bounds_Dx sys img" "Bounds_Dx sys img < 2 ^ 46"
      "0 \<le> Bounds_Dy sys img" "Bounds_Dy sys img < 2 ^ 46"
    have "percentActive options" unfolding percentActive_iff using a(1-3) by simp
    with r1 show "applyResize sys img options =
          imaging_Resize sys img (Bounds_Dx sys img * p div 100) (Bounds_Dy sys img * p div 100)"
      unfolding a(1) percent_axis_whole [OF a(2,3,4,5)] percent_axis_whole [OF a(2,3,6,7)]
      by simp
  qed
  have near: "\<forall>q. ResizePercent options = Finite q \<and> 0 < q \<and> q < 100
          \<and> 0 \<le> Bounds_Dx sys img \<and> Bounds_Dx sys img < 2 ^ 50
          \<and> 0 \<le> Bounds_Dy sys img \<and> Bounds_Dy sys img < 2 ^ 50 \<longrightarrow>
        (\<exists>newWidth newHeight.
           applyResize sys img options = imaging_Resize sys img newWidth newHeight
           \<and> \<bar>newWidth - \<lfloor>of_int (Bounds_Dx sys img) * q / 100\<rfloor>\<bar> \<le> 1
           \<and> \<bar>newHeight - \<lfloor>of_int (Bounds_Dy sys img) * q / 100\<rfloor>\<bar> \<le> 1)"
  proof (intro allI impI, elim conjE)
    fix q :: rat
    assume a: "ResizePercent options = Finite q" "0 < q" "q < 100"
      "0 \<le> Bounds_Dx sys img" "Bounds_Dx sys img < 2 ^ 50"
      "0 \<le> Bounds_Dy sys img" "Bounds_Dy sys img < 2 ^ 50"
    have "percentActive options" unfolding percentActive_iff using a(1-3) by simp
    with r1 have "applyResize sys img options =
        imaging_Resize sys img
          (?toInt (f_div (f_mul (f_of_int (Bounds_Dx sys img)) (Finite q)) (f_const 100)))
          (?toInt (f_div (f_mul (f_of_int (Bounds_Dy sys img)) (Finite q)) (f_const 100)))"
      unfolding a(1) by simp
    with percent_axis_accuracy [OF a(2,3,4,5), of "float_to_int_oor sys"]
         percent_axis_accuracy [OF a(2,3,6,7), of "float_to_int_oor sys"]
    show "\<exists>newWidth newHeight.
           applyResize sys img options = imaging_Resize sys img newWidth newHeight
           \<and> \<bar>newWidth - \<lfloor>of_int (Bounds_Dx sys img) * q / 100\<rfloor>\<bar> \<le> 1
           \<and> \<bar>newHeight - \<lfloor>of_int (Bounds_Dy sys img) * q / 100\<rfloor>\<bar> \<le> 1"
      by blast
  qed
  have h: "\<not> percentActive options \<and> ResizeHeight options = 0
        \<and> 0 < ResizeWidth options \<and> ResizeWidth options < 2 ^ 53
        \<and> 0 < Bounds_Dx sys img \<and> Bounds_Dx sys img < 2 ^ 53
        \<and> 0 \<le> Bounds_Dy sys img \<and> Bounds_Dy sys img < 2 ^ 53
        \<and> of_int (Bounds_Dy sys img) * of_int (ResizeWidth options) / of_int (Bounds_Dx sys img)
            < (2 ^ 50 :: rat) \<longrightarrow>
        (\<exists>newHeight.
           applyResize sys img options = imaging_Resize sys img (ResizeWidth options) newHeight
           \<and> \<bar>newHeight - \<lfloor>of_int (Bounds_Dy sys img) * of_int (ResizeWidth options)
                               / of_int (Bounds_Dx sys img) :: rat\<rfloor>\<bar> \<le> 1)"
  proof (intro impI, elim conjE)
    assume a: "\<not> percentActive options" "ResizeHeight options = 0"
      "0 < ResizeWidth options" "ResizeWidth options < 2 ^ 53"
      "0 < Bounds_Dx sys img" "Bounds_Dx sys img < 2 ^ 53"
      "0 \<le> Bounds_Dy sys img" "Bounds_Dy sys img < 2 ^ 53"
      "of_int (Bounds_Dy sys img) * of_int (ResizeWidth options) / of_int (Bounds_Dx sys img)
            < (2 ^ 50 :: rat)"
    from r2 a(1,2,3) have "applyResize sys img options =
             imaging_Resize sys img (ResizeWidth options)
               (?toInt (f_mul (f_of_int (Bounds_Dy sys img))
                     (f_div (f_of_int (ResizeWidth options)) (f_of_int (Bounds_Dx sys img)))))"
      by blast
    with ratio_axis_accuracy [OF a(3,4,5,6,7,8,9), of "float_to_int_oor sys"]
    show "\<exists>newHeight.
           applyResize sys img options = imaging_Resize sys img (ResizeWidth options) newHeight
           \<and> \<bar>newHeight - \<lfloor>of_int (Bounds_Dy sys img) * of_int (ResizeWidth options)
                               / of_int (Bounds_Dx sys img) :: rat\<rfloor>\<bar> \<le> 1"
      by blast
  qed
  have w: "\<not> percentActive options \<and> ResizeWidth options = 0
        \<and> 0 < ResizeHeight options \<and> ResizeHeight options < 2 ^ 53
        \<and> 0 < Bounds_Dy sys img \<and> Bounds_Dy sys img < 2 ^ 53
        \<and> 0 \<le> Bounds_Dx sys img \<and> Bounds_Dx sys img < 2 ^ 53
        \<and> of_int (Bounds_Dx sys img) * of_int (ResizeHeight options) / of_int (Bounds_Dy sys img)
            < (2 ^ 50 :: rat) \<longrightarrow>
        (\<exists>newWidth.
           applyResize sys img options = imaging_Resize sys img newWidth (ResizeHeight options)
           \<and> \<bar>newWidth - \<lfloor>of_int (Bounds_Dx sys img) * of_int (ResizeHeight options)
                              / of_int (Bounds_Dy sys img) :: rat\<rfloor>\<bar> \<le> 1)"
  proof (intro impI, elim conjE)
    assume a: "\<not> percentActive options" "ResizeWidth options = 0"
      "0 < ResizeHeight options" "ResizeHeight options < 2 ^ 53"
      "0 < Bounds_Dy sys img" "Bounds_Dy sys img < 2 ^ 53"
      "0 \<le> Bounds_Dx sys img" "Bounds_Dx sys img < 2 ^ 53"
      "of_int (Bounds_Dx sys img) * of_int (ResizeHeight options) / of_int (Bounds_Dy sys img)
            < (2 ^ 50 :: rat)"
    from r2 a(1,2,3) have "applyResize sys img options =
             imaging_Resize sys img
               (?toInt (f_mul (f_of_int (Bounds_Dx sys img))
                     (f_div (f_of_int (ResizeHeight options)) (f_of_int (Bounds_Dy sys img)))))
               (ResizeHeight options)"
      by blast
    with ratio_axis_accuracy [OF a(3,4,5,6,7,8,9), of "float_to_int_oor sys"]
    show "\<exists>newWidth.
           applyResize sys img options = imaging_Resize sys img newWidth (ResizeHeight options)
           \<and> \<bar>newWidth - \<lfloor>of_int (Bounds_Dx sys img) * of_int (ResizeHeight options)
                              / of_int (Bounds_Dy sys img) :: rat\<rfloor>\<bar> \<le> 1"
      by blast
  qed
  have floor: "\<forall>x. 0 \<le> x \<and> x < 2 ^ 63 \<longrightarrow> ?toInt (Finite x) = \<lfloor>x\<rfloor>"
    using f_to_int_floor by blast
  from r1 r2 r3 percentActive_iff [of options] whole near h w floor show ?thesis
    by (intro conjI) assumption+
qed

theorem applyResize_dimensions_witness:
  "percentActive (DefaultOptions\<lparr>ResizePercent := f_const 50, ResizeWidth := 1000\<rparr>)
   \<and> applyResize demo_sys (Decoded 800 600)
        (DefaultOptions\<lparr>ResizePercent := f_const 50, ResizeWidth := 1000\<rparr>)
      = Resized (Decoded 800 600) 400 300
   \<and> \<not> percentActive (DefaultOptions\<lparr>ResizeWidth := 400, ResizeHeight := 0\<rparr>)
   \<and> applyResize demo_sys (Decoded 800 600) (DefaultOptions\<lparr>ResizeWidth := 400, ResizeHeight := 0\<rparr>)
      = Resized (Decoded 800 600) 400 300
   \<and> applyResize demo_sys (Decoded 800 600) (DefaultOptions\<lparr>ResizeWidth := 0, ResizeHeight := 300\<rparr>)
      = Resized (Decoded 800 600) 400 300
   \<and> applyResize demo_sys (Decoded 800 600) (DefaultOptions\<lparr>ResizeWidth := 100, ResizeHeight := 100\<rparr>)
      = Resized (Decoded 800 600) 100 100
   \<and> applyResize demo_sys (Decoded 800 600) (DefaultOptions\<lparr>ResizeWidth := - 5, ResizeHeight := 300\<rparr>)
      = Resized (Decoded 800 600) (- 5) 300
   \<and> applyResize demo_sys (Decoded 800 600) (DefaultOptions\<lparr>ResizePercent := f_const 100\<rparr>)
      = Decoded 800 600"
  using applyResize_dimensions [of "DefaultOptions\<lparr>ResizePercent := f_const 50, ResizeWidth := 1000\<rparr>"
          demo_sys "Decoded 800 600"]
        applyResize_dimensions [of "DefaultOptions\<lparr>ResizeWidth := 400, ResizeHeight := 0\<rparr>"
          demo_sys "Decoded 800 600"]
        applyResize_dimensions [of "DefaultOptions\<lparr>ResizeWidth := 0, ResizeHeight := 300\<rparr>"
          demo_sys "Decoded 800 600"]
        applyResize_dimensions [of "DefaultOptions\<lparr>ResizeWidth := 100, ResizeHeight := 100\<rparr>"
          demo_sys "Decoded 800 600"]
        applyResize_dimensions [of "DefaultOptions\<lparr>ResizeWidth := - 5, ResizeHeight := 300\<rparr>"
          demo_sys "Decoded 800 600"]
        applyResize_dimensions [of "DefaultOptions\<lparr>ResizePercent := f_const 100\<rparr>"
          demo_sys "Decoded 800 600"]
  by (simp add: percentActive_def DefaultOptions_def demo_sys_def float_eval round64_half trunc_rat_def)










text \<open>
  C9. In every state that a batch run reaches, under every interleaving of the goroutines,
  at most 4 of them are inside \<open>api.CompressImage\<close>: those are among the goroutines that
  hold a slot, the slots held are the values in the buffer of the semaphore, and the
  buffer holds at most 4. A goroutine enters \<open>api.CompressImage\<close> only by the send on the
  semaphore, and a slot is given back only by a goroutine at its deferred receive, which
  comes after its \<open>api.CompressImage\<close> has returned.
\<close>

theorem at_most_four_in_flight:
  assumes "run_events es (batch_start n) = Some s"
  shows "in_flight s \<le> 4 \<and> in_flight s \<le> holders s \<and> holders s = semaphore s
    \<and> semaphore s \<le> 4
    \<and> (\<forall>i s'. fire (Release i) s = Some s' \<longrightarrow> pcs s ! i = Releasing \<or> pcs s ! i = Panicking)
    \<and> (\<forall>i s'. fire (Acquire i) s = Some s' \<longrightarrow> semaphore s < 4 \<and> pcs s' ! i = Compressing)"
proof -
  have "holders (batch_start n) = semaphore (batch_start n)"
    by (simp add: holders_def batch_start_def)
  moreover have "semaphore (batch_start n) \<le> semaphore_cap" by (simp add: batch_start_def)
  ultimately have inv: "holders s = semaphore s \<and> semaphore s \<le> semaphore_cap"
    using assms by (intro run_events_invariant)
  then have h: "holders s = semaphore s" and c: "semaphore s \<le> 4"
    by (simp_all add: semaphore_cap_def)
  have f: "in_flight s \<le> holders s" by (rule in_flight_le_holders)
  with h c have f4: "in_flight s \<le> 4" by linarith
  have rel: "\<forall>i s'. fire (Release i) s = Some s' \<longrightarrow> pcs s ! i = Releasing \<or> pcs s ! i = Panicking"
    using fire_Release by blast
  have acq: "\<forall>i s'. fire (Acquire i) s = Some s' \<longrightarrow> semaphore s < 4 \<and> pcs s' ! i = Compressing"
    using fire_Acquire unfolding semaphore_cap_def by blast
  from f4 f h c rel acq show ?thesis by (intro conjI)
qed


theorem at_most_four_in_flight_witness:
  "run_events [Spawn 0, Spawn 1, Acquire 1, Spawn 2, Spawn 3, Acquire 0, Spawn 4, Acquire 3,
               Acquire 2] (batch_start 5)
     = Some \<lparr>pcs = [Compressing, Compressing, Compressing, Compressing, Waiting],
             semaphore = 4, mu = False, crashed = False\<rparr>
   \<and> in_flight \<lparr>pcs = [Compressing, Compressing, Compressing, Compressing, Waiting],
                 semaphore = 4, mu = False, crashed = False\<rparr> = 4
   \<and> fire (Acquire 4) \<lparr>pcs = [Compressing, Compressing, Compressing, Compressing, Waiting],
                         semaphore = 4, mu = False, crashed = False\<rparr> = None"
proof -
  have r: "run_events [Spawn 0, Spawn 1, Acquire 1, Spawn 2, Spawn 3, Acquire 0, Spawn 4, Acquire 3,
               Acquire 2] (batch_start 5)
     = Some \<lparr>pcs = [Compressing, Compressing, Compressing, Compressing, Waiting],
             semaphore = 4, mu = False, crashed = False\<rparr>"
    by (simp add: batch_start_def worker_at_def move_def semaphore_cap_def numeral_eq_Suc)
  from at_most_four_in_flight [OF r] r show ?thesis
    by (simp add: in_flight_def worker_at_def semaphore_cap_def)
qed

end
